theory Spec2Isabelle
  imports Complex_Main
begin

section \<open>Quantities: labelled arrays in dense or event form\<close>

text \<open>
  The reduction code of \<^verbatim>\<open>esssans\<close> (\<^verbatim>\<open>i_of_q.py\<close>, \<^verbatim>\<open>normalization.py\<close>) is glue over
  the array library it imports. The functions of the repository are embedded one by one
  further down; this section gives the library operations they call a meaning.

  Conventions of the embedding:
  \<^item> a float is a \<^typ>\<open>real\<close>: rounding, infinities and NaN are outside the model, and
    a quotient by zero leaves the model;
  \<^item> a variable has named dimensions with sizes, row-major values and optional
    variances; physical units are not represented (all operands are taken to be
    unit-compatible);
  \<^item> an exception of the library or of Python is a value \<open>Inl e\<close>; the constructor
    \<open>OutsideModel\<close> is not an exception: it marks what the embedding gives no meaning
    to (a quotient by zero or another non-finite float, and the operand combinations that
    the definition of an operation leaves out). No property below reads it as a behaviour
    of the program.
\<close>

type_synonym dim = string
type_synonym sizes = "(dim \<times> nat) list"

datatype error =
    DimensionError
  | DatasetError
  | VariancesError
  | BinEdgeError
  | KeyError
  | ValueError
  | AttributeError
  | OutsideModel

record variable =
  v_dims :: sizes
  v_values :: "real list"
  v_variances :: "real list option"

text \<open>An event record: its weight, the variance of the weight, and its own coordinates.\<close>

record event =
  e_weight :: real
  e_variance :: real
  e_coords :: "(string \<times> real) list"

text \<open>
  Dense content holds one value (and optionally one variance) per cell. Binned content
  holds one event list per cell; the flag says whether the event weights carry variances.
\<close>

datatype content =
    Dense "real list" "real list option"
  | Binned bool "event list list"

record data_array =
  da_sizes :: sizes
  da_data :: content
  da_coords :: "(string \<times> variable) list"
  da_masks :: "(string \<times> sizes \<times> bool list) list"

definition volume :: "sizes \<Rightarrow> nat" where
  "volume s = prod_list (map snd s)"

definition is_binned :: "data_array \<Rightarrow> bool" where
  "is_binned a = (case da_data a of Binned _ _ \<Rightarrow> True | Dense _ _ \<Rightarrow> False)"

text \<open>\<^verbatim>\<open>x.variances is not None\<close>\<close>

definition has_variances :: "data_array \<Rightarrow> bool" where
  "has_variances a =
     (case da_data a of Dense _ vs \<Rightarrow> vs \<noteq> None | Binned f _ \<Rightarrow> False)"

text \<open>\<^verbatim>\<open>sc.values(x)\<close>: the same quantity without variances.\<close>

definition values_of :: "data_array \<Rightarrow> data_array" where
  "values_of a =
     (case da_data a of
        Dense xs _ \<Rightarrow> a\<lparr>da_data := Dense xs None\<rparr>
      | Binned _ es \<Rightarrow> a\<lparr>da_data := Binned False es\<rparr>)"

subsection \<open>Elementwise arithmetic with propagation of uncertainties\<close>

datatype binop = Add | Sub | Mul | Div

fun op_value :: "binop \<Rightarrow> real \<Rightarrow> real \<Rightarrow> real" where
  "op_value Add a b = a + b"
| "op_value Sub a b = a - b"
| "op_value Mul a b = a * b"
| "op_value Div a b = a / b"

text \<open>First-order propagation for independent operands, as the library does it.\<close>

fun op_variance :: "binop \<Rightarrow> real \<times> real \<Rightarrow> real \<times> real \<Rightarrow> real" where
  "op_variance Add (a, va) (b, vb) = va + vb"
| "op_variance Sub (a, va) (b, vb) = va + vb"
| "op_variance Mul (a, va) (b, vb) = va * b\<^sup>2 + vb * a\<^sup>2"
| "op_variance Div (a, va) (b, vb) = (va + vb * a\<^sup>2 / b\<^sup>2) / b\<^sup>2"

definition variances_or_zero :: "real list \<Rightarrow> real list option \<Rightarrow> real list" where
  "variances_or_zero xs vo = (case vo of None \<Rightarrow> map (\<lambda>_. 0) xs | Some vs \<Rightarrow> vs)"

definition elementwise ::
  "binop \<Rightarrow> real list \<times> real list option \<Rightarrow> real list \<times> real list option
     \<Rightarrow> error + real list \<times> real list option" where
  "elementwise f a b =
     (case (a, b) of ((xs, vxs), (ys, vys)) \<Rightarrow>
        if f = Div \<and> 0 \<in> set ys then Inl OutsideModel
        else Inr (map2 (op_value f) xs ys,
                  if vxs = None \<and> vys = None then None
                  else Some (map2 (op_variance f)
                               (zip xs (variances_or_zero xs vxs))
                               (zip ys (variances_or_zero ys vys)))))"

text \<open>
  Operands are combined when their dimensions agree, or when one of them is a scalar
  (no dimension), which is then repeated for every cell of the other. Repeating an
  operand that has variances over more than one cell is refused by the library
  (it would correlate the cells). Other combinations of dimensions need transposition or
  partial broadcasting and stay outside the embedding.
\<close>

definition spread ::
  "nat \<Rightarrow> real list \<times> real list option \<Rightarrow> error + real list \<times> real list option" where
  "spread n a =
     (case a of (xs, vxs) \<Rightarrow>
        if vxs \<noteq> None \<and> n \<noteq> 1 then Inl VariancesError
        else Inr (concat (replicate n xs), map_option (\<lambda>vs. concat (replicate n vs)) vxs))"

definition combine ::
  "binop \<Rightarrow> sizes \<times> real list \<times> real list option \<Rightarrow> sizes \<times> real list \<times> real list option
     \<Rightarrow> error + sizes \<times> real list \<times> real list option" where
  "combine f a b =
     (case (a, b) of ((da, ca), (db, cb)) \<Rightarrow>
        if da = db then map_sum id (Pair da) (elementwise f ca cb)
        else if db = [] then
          (case spread (volume da) cb of
             Inl e \<Rightarrow> Inl e
           | Inr cb' \<Rightarrow> map_sum id (Pair da) (elementwise f ca cb'))
        else if da = [] then
          (case spread (volume db) ca of
             Inl e \<Rightarrow> Inl e
           | Inr ca' \<Rightarrow> map_sum id (Pair db) (elementwise f ca' cb))
        else Inl OutsideModel)"

text \<open>Arithmetic between variables.\<close>

definition var_op :: "binop \<Rightarrow> variable \<Rightarrow> variable \<Rightarrow> error + variable" where
  "var_op f a b =
     (case combine f (v_dims a, v_values a, v_variances a)
                     (v_dims b, v_values b, v_variances b) of
        Inl e \<Rightarrow> Inl e
      | Inr (d, xs, vs) \<Rightarrow> Inr \<lparr>v_dims = d, v_values = xs, v_variances = vs\<rparr>)"

text \<open>
  Arithmetic between data arrays: a coordinate present in both operands has to be
  identical in both, the result carries the coordinates and masks of both operands, and
  masks of the same name are merged by disjunction.
\<close>

definition coords_agree ::
  "(string \<times> variable) list \<Rightarrow> (string \<times> variable) list \<Rightarrow> bool" where
  "coords_agree ca cb =
     list_all (\<lambda>(k, v). case map_of cb k of None \<Rightarrow> True | Some w \<Rightarrow> v = w) ca"

definition merge_coords ::
  "(string \<times> variable) list \<Rightarrow> (string \<times> variable) list \<Rightarrow> (string \<times> variable) list" where
  "merge_coords ca cb = ca @ filter (\<lambda>(k, v). map_of ca k = None) cb"

definition merge_masks ::
  "(string \<times> sizes \<times> bool list) list \<Rightarrow> (string \<times> sizes \<times> bool list) list
     \<Rightarrow> error + (string \<times> sizes \<times> bool list) list" where
  "merge_masks ma mb =
     (if list_all (\<lambda>(k, s, m). case map_of mb k of None \<Rightarrow> True | Some (s', m') \<Rightarrow> s = s') ma
      then Inr (map (\<lambda>(k, s, m). case map_of mb k of
                                    None \<Rightarrow> (k, s, m)
                                  | Some (s', m') \<Rightarrow> (k, s, map2 (\<or>) m m')) ma
                @ filter (\<lambda>(k, sm). map_of ma k = None) mb)
      else Inl OutsideModel)"

definition dense_op :: "binop \<Rightarrow> data_array \<Rightarrow> data_array \<Rightarrow> error + data_array" where
  "dense_op f a b =
     (case (da_data a, da_data b) of
        (Dense xs vxs, Dense ys vys) \<Rightarrow>
          if \<not> coords_agree (da_coords a) (da_coords b) then Inl DatasetError
          else
            (case combine f (da_sizes a, xs, vxs) (da_sizes b, ys, vys) of
               Inl e \<Rightarrow> Inl e
             | Inr (d, zs, vzs) \<Rightarrow>
                 (case merge_masks (da_masks a) (da_masks b) of
                    Inl e \<Rightarrow> Inl e
                  | Inr ms \<Rightarrow>
                      Inr \<lparr>da_sizes = d, da_data = Dense zs vzs,
                           da_coords = merge_coords (da_coords a) (da_coords b),
                           da_masks = ms\<rparr>))
      | _ \<Rightarrow> Inl OutsideModel)"

subsection \<open>Event lists\<close>

text \<open>\<^verbatim>\<open>x.bins.sum()\<close>: the sum of the event weights of every cell.\<close>

definition bins_sum :: "data_array \<Rightarrow> error + data_array" where
  "bins_sum a =
     (case da_data a of
        Dense _ _ \<Rightarrow> Inl AttributeError
      | Binned f es \<Rightarrow>
          Inr (a\<lparr>da_data :=
                   Dense (map (\<lambda>c. sum_list (map e_weight c)) es)
                         (if f then Some (map (\<lambda>c. sum_list (map e_variance c)) es)
                          else None)\<rparr>))"

text \<open>\<^verbatim>\<open>x.hist()\<close> without arguments, on event data: the events of every bin are summed.\<close>

definition hist_bins :: "data_array \<Rightarrow> error + data_array" where
  "hist_bins a = bins_sum a"

text \<open>A loop that stops at the first error.\<close>

fun traverse :: "('a \<Rightarrow> error + 'b) \<Rightarrow> 'a list \<Rightarrow> error + 'b list" where
  "traverse f [] = Inr []"
| "traverse f (x # xs) =
     (case f x of
        Inl e \<Rightarrow> Inl e
      | Inr y \<Rightarrow> (case traverse f xs of Inl e \<Rightarrow> Inl e | Inr ys \<Rightarrow> Inr (y # ys)))"

text \<open>The bin of a value among bin edges: bins are closed on the left and open on the right.\<close>

fun find_bin :: "real list \<Rightarrow> real \<Rightarrow> nat option" where
  "find_bin (a # b # es) x =
     (if a \<le> x \<and> x < b then Some 0 else map_option Suc (find_bin (b # es) x))"
| "find_bin _ x = None"

text \<open>
  \<^verbatim>\<open>x.bins / sc.lookup(func, dim)\<close>: every event is divided by the value that the
  histogram \<open>func\<close> has in the bin that holds the event's own \<open>dim\<close> coordinate. The
  histogram is either one row over \<open>dim\<close>, used for every cell, or has the dimensions of
  \<open>x\<close> with \<open>dim\<close> innermost, and then each cell uses the row of its outer index. An event
  outside the edges would get the fill value NaN, which leaves the model.
\<close>

definition lookup_row :: "data_array \<Rightarrow> dim \<Rightarrow> sizes \<Rightarrow> nat \<Rightarrow> error + real list" where
  "lookup_row func d s i =
     (case da_data func of
        Binned _ _ \<Rightarrow> Inl OutsideModel
      | Dense ys vys \<Rightarrow>
          if vys \<noteq> None \<or> da_masks func \<noteq> [] then Inl OutsideModel
          else if da_sizes func = [] then Inl DimensionError
          else if fst (last (da_sizes func)) \<noteq> d then Inl OutsideModel
          else
            (let m = snd (last (da_sizes func)) in
             if length (da_sizes func) = 1 then Inr ys
             else if da_sizes func = s then Inr (take m (drop ((i div m) * m) ys))
             else Inl OutsideModel))"

definition divide_event :: "real list \<Rightarrow> real list \<Rightarrow> dim \<Rightarrow> event \<Rightarrow> error + event" where
  "divide_event edges row d e =
     (case map_of (e_coords e) d of
        None \<Rightarrow> Inl KeyError
      | Some q \<Rightarrow>
          (case find_bin edges q of
             None \<Rightarrow> Inl OutsideModel
           | Some j \<Rightarrow>
               if length row \<le> j \<or> row ! j = 0 then Inl OutsideModel
               else Inr (e\<lparr>e_weight := e_weight e / row ! j,
                           e_variance := e_variance e / (row ! j)\<^sup>2\<rparr>)))"

definition bins_div_lookup :: "data_array \<Rightarrow> data_array \<Rightarrow> dim \<Rightarrow> error + data_array" where
  "bins_div_lookup a func d =
     (case da_data a of
        Dense _ _ \<Rightarrow> Inl AttributeError
      | Binned f es \<Rightarrow>
          (case map_of (da_coords func) d of
             None \<Rightarrow> Inl KeyError
           | Some edges \<Rightarrow>
               (case traverse
                       (\<lambda>(i, c). case lookup_row func d (da_sizes a) i of
                                   Inl e \<Rightarrow> Inl e
                                 | Inr row \<Rightarrow>
                                     if length (v_values edges) \<noteq> Suc (length row)
                                     then Inl OutsideModel
                                     else traverse (divide_event (v_values edges) row d) c)
                       (zip [0 ..< length es] es) of
                  Inl e \<Rightarrow> Inl e
                | Inr es' \<Rightarrow> Inr (a\<lparr>da_data := Binned f es'\<rparr>))))"

section \<open>Background subtraction (\<^verbatim>\<open>i_of_q.subtract_background\<close>)\<close>

definition subtract_background :: "data_array \<Rightarrow> data_array \<Rightarrow> error + data_array" where
  "subtract_background sample background =
     (case (if is_binned sample then bins_sum sample else Inr sample) of
        Inl e \<Rightarrow> Inl e
      | Inr sample' \<Rightarrow>
          (case (if is_binned background then bins_sum background else Inr background) of
             Inl e \<Rightarrow> Inl e
           | Inr background' \<Rightarrow> dense_op Sub sample' background'))"

section \<open>Normalization (\<^verbatim>\<open>normalization.py\<close>)\<close>

text \<open>
  \<^verbatim>\<open>transmission_fraction\<close>: Python evaluates the left quotient, then the right one, then
  the product.
\<close>

definition transmission_fraction ::
  "data_array \<Rightarrow> data_array \<Rightarrow> data_array \<Rightarrow> data_array \<Rightarrow> error + data_array" where
  "transmission_fraction sample_incident_monitor sample_transmission_monitor
       direct_incident_monitor direct_transmission_monitor =
     (case dense_op Div sample_transmission_monitor direct_transmission_monitor of
        Inl e \<Rightarrow> Inl e
      | Inr l \<Rightarrow>
          (case dense_op Div direct_incident_monitor sample_incident_monitor of
             Inl e \<Rightarrow> Inl e
           | Inr r \<Rightarrow> dense_op Mul l r))"

definition normalize_iofq :: "data_array \<Rightarrow> data_array \<Rightarrow> error + data_array" where
  "normalize_iofq numerator denominator =
     (case (if has_variances denominator \<and> is_binned numerator
            then hist_bins numerator else Inr numerator) of
        Inl e \<Rightarrow> Inl e
      | Inr numerator' \<Rightarrow>
          if is_binned numerator' then bins_div_lookup numerator' denominator ''Q''
          else dense_op Div numerator' denominator)"

section \<open>Solid angle (\<^verbatim>\<open>normalization.solid_angle_rectangular_approximation\<close>)\<close>

definition dims_of :: "sizes \<Rightarrow> dim set" where
  "dims_of s = set (map fst s)"

text \<open>
  \<^verbatim>\<open>concepts.rewrap_reduced_data(prototype, data, dim)\<close>: the new data with those
  coordinates and masks of the prototype that have none of the reduced dimensions.
\<close>

definition rewrap_reduced_data :: "data_array \<Rightarrow> variable \<Rightarrow> dim set \<Rightarrow> data_array" where
  "rewrap_reduced_data prototype v reduced =
     \<lparr>da_sizes = v_dims v,
      da_data = Dense (v_values v) (v_variances v),
      da_coords = filter (\<lambda>(k, c). dims_of (v_dims c) \<inter> reduced = {}) (da_coords prototype),
      da_masks = filter (\<lambda>(k, s, m). dims_of s \<inter> reduced = {}) (da_masks prototype)\<rparr>"

text \<open>
  Positions are vectors, which the embedding does not represent; \<^verbatim>\<open>scn.L2\<close>, the library
  function that turns the positions of sample and pixels into the distance from the
  sample to every pixel, is therefore a parameter \<open>L2\<close>. As in Python, the product of
  width and height is computed first, then the square of the distance, then the quotient.
\<close>

definition solid_angle_rectangular_approximation ::
  "(data_array \<Rightarrow> error + variable) \<Rightarrow> data_array \<Rightarrow> error + data_array" where
  "solid_angle_rectangular_approximation L2 data =
     (case map_of (da_coords data) ''pixel_width'' of
        None \<Rightarrow> Inl KeyError
      | Some pixel_width \<Rightarrow>
     (case map_of (da_coords data) ''pixel_height'' of
        None \<Rightarrow> Inl KeyError
      | Some pixel_height \<Rightarrow>
     (case L2 data of
        Inl e \<Rightarrow> Inl e
      | Inr l2 \<Rightarrow>
     (case var_op Mul pixel_width pixel_height of
        Inl e \<Rightarrow> Inl e
      | Inr wh \<Rightarrow>
     (case var_op Mul l2 l2 of
        Inl e \<Rightarrow> Inl e
      | Inr ll \<Rightarrow>
     (case var_op Div wh ll of
        Inl e \<Rightarrow> Inl e
      | Inr omega \<Rightarrow>
          Inr (rewrap_reduced_data data omega
                 (dims_of (da_sizes data) - dims_of (v_dims omega)))))))))"

section \<open>Direct-beam resampling (\<^verbatim>\<open>i_of_q.resample_direct_beam\<close>)\<close>

text \<open>
  \<^verbatim>\<open>scipp.scipy.interpolate.interp1d(da, dim, fill_value="extrapolate",
  bounds_error=False)\<close>, applied to new bin edges with \<^verbatim>\<open>midpoints=True\<close>. The points
  are sorted by their coordinate; a new point is looked up in the segment between the
  last point before it and the next one, the first and the last segment serving for
  everything before and after them. The result carries the bin edges as its coordinate;
  further coordinates of the curve are not followed. One-dimensional unmasked curves are
  given a meaning here.
\<close>

fun midpoints :: "real list \<Rightarrow> real list" where
  "midpoints (a # b # xs) = (a + (b - a) / 2) # midpoints (b # xs)"
| "midpoints _ = []"

fun interpolate :: "(real \<times> real) list \<Rightarrow> real \<Rightarrow> error + real" where
  "interpolate ((x0, y0) # (x1, y1) # ps) x =
     (if x \<le> x1 \<or> ps = [] then
        (if x1 = x0 then Inl OutsideModel
         else Inr ((y1 - y0) / (x1 - x0) * (x - x0) + y0))
      else interpolate ((x1, y1) # ps) x)"
| "interpolate _ x = Inl ValueError"

definition interp1d_midpoints :: "data_array \<Rightarrow> dim \<Rightarrow> variable \<Rightarrow> error + data_array" where
  "interp1d_midpoints da d xnew =
     (case da_data da of
        Binned _ _ \<Rightarrow> Inl OutsideModel
      | Dense ys vs \<Rightarrow>
          if vs \<noteq> None then Inl VariancesError
          else
            (case map_of (da_coords da) d of
               None \<Rightarrow> Inl KeyError
             | Some x \<Rightarrow>
                 if da_sizes da \<noteq> [(d, length ys)] \<or> da_masks da \<noteq> [] then Inl OutsideModel
                 else if map fst (v_dims xnew) \<noteq> [d] then Inl DimensionError
                 else if length (v_values x) \<noteq> length ys \<or> length ys < 2 then Inl ValueError
                 else
                   (case traverse (interpolate (sort_key fst (zip (v_values x) ys)))
                           (midpoints (v_values xnew)) of
                      Inl e \<Rightarrow> Inl e
                    | Inr ynew \<Rightarrow>
                        Inr \<lparr>da_sizes = [(d, length ynew)], da_data = Dense ynew None,
                             da_coords = [(d, xnew)], da_masks = []\<rparr>)))"

definition variance_warning :: string where
  "variance_warning =
     ''An interpolation is being performed on the direct_beam function. '' @
     ''The variances in the direct_beam function will be dropped.''"

text \<open>The function returns what it logged together with its result or exception.\<close>

definition resample_direct_beam ::
  "data_array \<Rightarrow> variable \<Rightarrow> string list \<times> (error + data_array)" where
  "resample_direct_beam direct_beam wavelength_bins =
     (case map_of (da_coords direct_beam) ''wavelength'' of
        None \<Rightarrow> ([], Inl KeyError)
      | Some c \<Rightarrow>
          if c = wavelength_bins then ([], Inr direct_beam)
          else (if has_variances direct_beam then [variance_warning] else [],
                interp1d_midpoints (values_of direct_beam) ''wavelength'' wavelength_bins))"

section \<open>Monitor preprocessing (\<^verbatim>\<open>i_of_q.preprocess_monitor_data\<close>)\<close>



text \<open>\<^verbatim>\<open>v.dim\<close>: the dimension of a one-dimensional variable.\<close>

definition the_dim :: "variable \<Rightarrow> error + dim" where
  "the_dim v = (case v_dims v of [(d, n)] \<Rightarrow> Inr d | _ \<Rightarrow> Inl DimensionError)"





fun bin_pairs :: "real list \<Rightarrow> (real \<times> real) list" where
  "bin_pairs (a # b # xs) = (a, b) # bin_pairs (b # xs)"
| "bin_pairs _ = []"









section \<open>Merging spectra (\<^verbatim>\<open>i_of_q.merge_spectra\<close>)\<close>

subsection \<open>Library operations on shapes and event lists\<close>

definition chunks :: "nat \<Rightarrow> nat \<Rightarrow> 'a list \<Rightarrow> 'a list list" where
  "chunks k n xs = map (\<lambda>r. take k (drop (r * k) xs)) [0 ..< n]"

text \<open>
  Joining the cells of an array of lists over the dimensions in \<open>S\<close>: the cells that
  differ only in their indices along \<open>S\<close> are appended to one another.
\<close>

fun gather :: "sizes \<Rightarrow> dim set \<Rightarrow> 'a list list \<Rightarrow> 'a list list" where
  "gather [] S cs = cs"
| "gather ((d, n) # ds) S cs =
     (let parts = map (gather ds S) (chunks (volume ds) n cs) in
      if d \<in> S
      then foldr (map2 (@)) parts (replicate (volume (filter (\<lambda>(d', m). d' \<notin> S) ds)) [])
      else concat parts)"

text \<open>
  A mask lives on some of the dimensions of its array, in any order. \<open>indices\<close> lists the
  index combinations of a shape in row-major order, \<open>offset\<close> is the position of an index
  combination in an array of the mask's shape, and \<open>broadcast_mask\<close> gives the mask one
  flag for every cell of the array.
\<close>

fun indices :: "sizes \<Rightarrow> (dim \<times> nat) list list" where
  "indices [] = [[]]"
| "indices ((d, n) # ds) = concat (map (\<lambda>i. map (\<lambda>ix. (d, i) # ix) (indices ds)) [0 ..< n])"

fun offset :: "sizes \<Rightarrow> (dim \<times> nat) list \<Rightarrow> nat" where
  "offset [] ix = 0"
| "offset ((d, n) # ds) ix =
     (case map_of ix d of None \<Rightarrow> 0 | Some i \<Rightarrow> i) * volume ds + offset ds ix"

definition broadcast_mask :: "sizes \<Rightarrow> sizes \<Rightarrow> bool list \<Rightarrow> bool list" where
  "broadcast_mask ds s m =
     map (\<lambda>ix. offset s ix < length m \<and> m ! offset s ix) (indices ds)"

text \<open>
  \<^verbatim>\<open>x.bins.concat(dims)\<close>: the event lists are joined over \<open>dims\<close>. A mask that depends on
  one of \<open>dims\<close> cannot be kept on the result: the bins it masks are hidden (their events
  are left out of the joined lists) and the mask is dropped. The other masks stay.
\<close>

definition hidden_by :: "bool list list \<Rightarrow> 'a list list \<Rightarrow> 'a list list" where
  "hidden_by flags es =
     map (\<lambda>(i, c). if list_ex (\<lambda>h. i < length h \<and> h ! i) flags then [] else c)
         (zip [0 ..< length es] es)"

definition bins_concat :: "data_array \<Rightarrow> dim set \<Rightarrow> error + data_array" where
  "bins_concat a S =
     (case da_data a of
        Dense _ _ \<Rightarrow> Inl AttributeError
      | Binned f es \<Rightarrow>
          (let over = filter (\<lambda>(k, s, m). dims_of s \<inter> S \<noteq> {}) (da_masks a);
               flags = map (\<lambda>(k, s, m). broadcast_mask (da_sizes a) s m) over
           in Inr \<lparr>da_sizes = filter (\<lambda>(d, n). d \<notin> S) (da_sizes a),
                   da_data = Binned f (gather (da_sizes a) S (hidden_by flags es)),
                   da_coords = filter (\<lambda>(k, c). dims_of (v_dims c) \<inter> S = {}) (da_coords a),
                   da_masks = filter (\<lambda>(k, s, m). dims_of s \<inter> S = {}) (da_masks a)\<rparr>))"

text \<open>
  \<^verbatim>\<open>x.bin(name=edges)\<close> on event data: a new innermost dimension \<open>name\<close>; every cell is
  split by the event coordinate \<open>name\<close> into the bins between the edges, which are closed
  on the left and open on the right; events outside all bins are left out. With a number
  of bins instead of edges, the bins divide the span of the coordinate evenly and the last
  bin takes the largest value in.
\<close>

definition in_range :: "dim \<Rightarrow> real \<times> real \<times> bool \<Rightarrow> event \<Rightarrow> bool" where
  "in_range d r e =
     (case r of (lo, hi, inclusive) \<Rightarrow>
        (case map_of (e_coords e) d of
           None \<Rightarrow> False
         | Some x \<Rightarrow> lo \<le> x \<and> (x < hi \<or> inclusive \<and> x = hi)))"

fun ranges_of :: "bool \<Rightarrow> real list \<Rightarrow> (real \<times> real \<times> bool) list" where
  "ranges_of c (a # b # xs) = (a, b, c \<and> xs = []) # ranges_of c (b # xs)"
| "ranges_of c _ = []"

definition bin_events :: "data_array \<Rightarrow> dim \<Rightarrow> real list \<Rightarrow> bool \<Rightarrow> error + data_array" where
  "bin_events a d edges inclusive =
     (case da_data a of
        Dense _ _ \<Rightarrow> Inl OutsideModel
      | Binned f es \<Rightarrow>
          if length edges < 2 \<or> \<not> sorted edges then Inl BinEdgeError
          else if \<not> list_all (\<lambda>e. map_of (e_coords e) d \<noteq> None) (concat es) then Inl KeyError
          else if d \<in> dims_of (da_sizes a) then Inl OutsideModel
          else Inr \<lparr>da_sizes = da_sizes a @ [(d, length edges - 1)],
                    da_data = Binned f (concat (map (\<lambda>c. map (\<lambda>r. filter (in_range d r) c)
                                                          (ranges_of inclusive edges)) es)),
                    da_coords = filter (\<lambda>(k, c). k \<noteq> d) (da_coords a)
                                @ [(d, \<lparr>v_dims = [(d, length edges)], v_values = edges,
                                        v_variances = None\<rparr>)],
                    da_masks = da_masks a\<rparr>)"

definition even_edges :: "nat \<Rightarrow> real list \<Rightarrow> real list" where
  "even_edges n xs =
     map (\<lambda>i. Min (set xs) + (Max (set xs) - Min (set xs)) * real i / real n) [0 ..< Suc n]"

definition bin_by :: "data_array \<Rightarrow> dim \<times> (nat + variable) \<Rightarrow> error + data_array" where
  "bin_by a spec =
     (case spec of
        (d, Inr edges) \<Rightarrow> bin_events a d (v_values edges) False
      | (d, Inl n) \<Rightarrow>
          (case da_data a of
             Dense _ _ \<Rightarrow> Inl OutsideModel
           | Binned f es \<Rightarrow>
               if \<not> list_all (\<lambda>e. map_of (e_coords e) d \<noteq> None) (concat es) then Inl KeyError
               else
                 (let xs = map (\<lambda>e. the (map_of (e_coords e) d)) (concat es) in
                  if n = 0 \<or> xs = [] \<or> (n \<noteq> 1 \<and> Min (set xs) = Max (set xs))
                  then Inl OutsideModel
                  else bin_events a d (even_edges n xs) True)))"

text \<open>
  \<^verbatim>\<open>x.squeeze()\<close>: the dimensions of length 1 go; the cells stay. A coordinate loses the
  squeezed dimensions along which it has one value; the two bin edges of a squeezed
  dimension stay behind as a coordinate that is no longer aligned with the data.
\<close>

definition strip_dims :: "sizes \<Rightarrow> sizes \<Rightarrow> sizes" where
  "strip_dims ds s = filter (\<lambda>p. \<not> (snd p = 1 \<and> p \<in> set ds)) s"

definition squeeze :: "data_array \<Rightarrow> data_array" where
  "squeeze a =
     a\<lparr>da_sizes := filter (\<lambda>(d, n). n \<noteq> 1) (da_sizes a),
       da_coords := map (\<lambda>(k, c). (k, c\<lparr>v_dims := strip_dims (da_sizes a) (v_dims c)\<rparr>))
                      (da_coords a),
       da_masks := map (\<lambda>(k, s, m). (k, strip_dims (da_sizes a) s, m)) (da_masks a)\<rparr>"

text \<open>
  \<^verbatim>\<open>sc.concat([x, y], dim)\<close> where \<open>y\<close> has no dimension \<open>dim\<close>: if \<open>x\<close> has none either it
  first becomes one slice of a new outermost dimension; then \<open>y\<close> is appended as one
  more slice. A coordinate that is the same in \<open>x\<close> and \<open>y\<close> is kept; one that differs
  is laid out along \<open>dim\<close>.
\<close>

definition expand :: "dim \<Rightarrow> data_array \<Rightarrow> data_array" where
  "expand d a = a\<lparr>da_sizes := (d, 1) # da_sizes a\<rparr>"

definition join_content :: "content \<Rightarrow> content \<Rightarrow> error + content" where
  "join_content a b =
     (case (a, b) of
        (Binned f es, Binned g es') \<Rightarrow> if f = g then Inr (Binned f (es @ es')) else Inl OutsideModel
      | (Dense xs None, Dense ys None) \<Rightarrow> Inr (Dense (xs @ ys) None)
      | (Dense xs (Some vs), Dense ys (Some ws)) \<Rightarrow> Inr (Dense (xs @ ys) (Some (vs @ ws)))
      | _ \<Rightarrow> Inl OutsideModel)"

definition join_coord :: "dim \<Rightarrow> nat \<Rightarrow> variable \<Rightarrow> variable \<Rightarrow> error + variable" where
  "join_coord d k x y =
     (if d \<notin> dims_of (v_dims x) then
        (if x = y then Inr x
         else if v_dims x = v_dims y \<and> v_variances x = None \<and> v_variances y = None
         then Inr \<lparr>v_dims = (d, Suc k) # v_dims y,
                   v_values = concat (replicate k (v_values x)) @ v_values y,
                   v_variances = None\<rparr>
         else Inl OutsideModel)
      else if v_dims x = (d, k) # v_dims y \<and> v_variances x = None \<and> v_variances y = None
      then Inr \<lparr>v_dims = (d, Suc k) # v_dims y, v_values = v_values x @ v_values y,
                v_variances = None\<rparr>
      else Inl OutsideModel)"

definition append_along :: "dim \<Rightarrow> data_array \<Rightarrow> data_array \<Rightarrow> error + data_array" where
  "append_along d a b =
     (case da_sizes a of
        [] \<Rightarrow> Inl OutsideModel
      | (d', k) # s \<Rightarrow>
          if d' \<noteq> d \<or> d \<in> dims_of (da_sizes b) then Inl OutsideModel
          else if s \<noteq> da_sizes b then Inl DimensionError
          else if map fst (da_coords a) \<noteq> map fst (da_coords b) \<or> da_masks a \<noteq> da_masks b
          then Inl OutsideModel
          else
            (case join_content (da_data a) (da_data b) of
               Inl e \<Rightarrow> Inl e
             | Inr c \<Rightarrow>
                 (case traverse (\<lambda>((k', x), (k'', y)). map_sum id (Pair k') (join_coord d k x y))
                         (zip (da_coords a) (da_coords b)) of
                    Inl e \<Rightarrow> Inl e
                  | Inr cs \<Rightarrow> Inr \<lparr>da_sizes = (d, Suc k) # s, da_data = c, da_coords = cs,
                                   da_masks = da_masks a\<rparr>)))"

definition concat2 :: "dim \<Rightarrow> data_array \<Rightarrow> data_array \<Rightarrow> error + data_array" where
  "concat2 d a b =
     (if d \<in> dims_of (da_sizes a) then append_along d a b else append_along d (expand d a) b)"

text \<open>\<^verbatim>\<open>sc.concat(xs, dim)\<close> of a whole list; an empty list is refused.\<close>

fun concat_all :: "dim \<Rightarrow> data_array \<Rightarrow> data_array list \<Rightarrow> error + data_array" where
  "concat_all d acc [] = Inr acc"
| "concat_all d acc (b # bs) =
     (case append_along d acc b of Inl e \<Rightarrow> Inl e | Inr acc' \<Rightarrow> concat_all d acc' bs)"

definition concat_list :: "dim \<Rightarrow> data_array list \<Rightarrow> error + data_array" where
  "concat_list d xs =
     (case xs of
        [] \<Rightarrow> Inl ValueError
      | a # bs \<Rightarrow>
          if d \<in> dims_of (da_sizes a) then Inl OutsideModel else concat_all d (expand d a) bs)"

text \<open>
  \<^verbatim>\<open>v.fold(dim='wavelength', sizes={'band': 1, **v.sizes})\<close> of a one-dimensional
  variable: a variable along another dimension has no dimension \<^verbatim>\<open>wavelength\<close> to fold.
\<close>

definition fold_band :: "variable \<Rightarrow> error + variable" where
  "fold_band v =
     (case v_dims v of
        [(d, n)] \<Rightarrow>
          if d = ''wavelength'' then Inr (v\<lparr>v_dims := [(''band'', 1), (''wavelength'', n)]\<rparr>)
          else Inl DimensionError
      | _ \<Rightarrow> Inl DimensionError)"

text \<open>
  \<^verbatim>\<open>sc.collapse(v, keep=dim).values()\<close>: the one-dimensional slices of \<open>v\<close> along
  \<open>dim\<close>, one for every index combination of the other dimensions.
\<close>

definition collapse :: "variable \<Rightarrow> dim \<Rightarrow> error + real list list" where
  "collapse v keep =
     (if keep \<in> dims_of (v_dims v)
      then Inr (gather (v_dims v) {keep} (map (\<lambda>x. [x]) (v_values v)))
      else Inl DimensionError)"

text \<open>
  \<^verbatim>\<open>x['wavelength', lo:hi]\<close> with values \<open>lo\<close> and \<open>hi\<close>: the data, coordinates and masks
  are cut along the dimension to the points \<open>lo \<le> w < hi\<close> of an ascending coordinate, or,
  if the coordinate holds bin edges, from the bin that contains \<open>lo\<close> to the last bin
  that begins before \<open>hi\<close>.
\<close>

fun cut_along :: "sizes \<Rightarrow> dim \<Rightarrow> nat \<Rightarrow> nat \<Rightarrow> 'a list \<Rightarrow> 'a list" where
  "cut_along [] d i j xs = xs"
| "cut_along ((d', n) # ds) d i j xs =
     (if d' = d then take ((j - i) * volume ds) (drop (i * volume ds) xs)
      else concat (map (cut_along ds d i j) (chunks (volume ds) n xs)))"

definition cut_sizes :: "dim \<Rightarrow> nat \<Rightarrow> sizes \<Rightarrow> sizes" where
  "cut_sizes d m s = map (\<lambda>(d', n). if d' = d then (d', m) else (d', n)) s"

definition cut_variable :: "dim \<Rightarrow> nat \<Rightarrow> nat \<Rightarrow> nat \<Rightarrow> variable \<Rightarrow> variable" where
  "cut_variable d n i j c =
     (if (d, n) \<in> set (v_dims c) then
        \<lparr>v_dims = cut_sizes d (j - i) (v_dims c),
         v_values = cut_along (v_dims c) d i j (v_values c),
         v_variances = map_option (cut_along (v_dims c) d i j) (v_variances c)\<rparr>
      else if (d, Suc n) \<in> set (v_dims c) then
        \<lparr>v_dims = cut_sizes d (Suc (j - i)) (v_dims c),
         v_values = cut_along (v_dims c) d i (Suc j) (v_values c),
         v_variances = map_option (cut_along (v_dims c) d i (Suc j)) (v_variances c)\<rparr>
      else c)"

definition cut_content :: "sizes \<Rightarrow> dim \<Rightarrow> nat \<Rightarrow> nat \<Rightarrow> content \<Rightarrow> content" where
  "cut_content s d i j c =
     (case c of
        Dense xs vs \<Rightarrow> Dense (cut_along s d i j xs) (map_option (cut_along s d i j) vs)
      | Binned f es \<Rightarrow> Binned f (cut_along s d i j es))"

definition label_range :: "real list \<Rightarrow> nat \<Rightarrow> real \<Rightarrow> real \<Rightarrow> nat \<times> nat" where
  "label_range xs n lo hi =
     (let i = (if length xs = n then length (filter (\<lambda>x. x < lo) xs)
               else length (filter (\<lambda>x. x \<le> lo) xs) - 1);
          j = max i (min n (length (filter (\<lambda>x. x < hi) xs)))
      in (i, j))"

definition slice_by_value :: "data_array \<Rightarrow> dim \<Rightarrow> real \<Rightarrow> real \<Rightarrow> error + data_array" where
  "slice_by_value a d lo hi =
     (case map_of (da_sizes a) d of
        None \<Rightarrow> Inl DimensionError
      | Some n \<Rightarrow>
          (case map_of (da_coords a) d of
             None \<Rightarrow> Inl KeyError
           | Some c \<Rightarrow>
               if map fst (v_dims c) \<noteq> [d] then Inl DimensionError
               else if \<not> sorted (v_values c) \<or> hi < lo
                       \<or> (length (v_values c) \<noteq> n \<and> length (v_values c) \<noteq> Suc n)
               then Inl OutsideModel
               else
                 (case label_range (v_values c) n lo hi of
                    (i, j) \<Rightarrow>
                      Inr \<lparr>da_sizes = cut_sizes d (j - i) (da_sizes a),
                           da_data = cut_content (da_sizes a) d i j (da_data a),
                           da_coords = map (\<lambda>(k, c). (k, cut_variable d n i j c)) (da_coords a),
                           da_masks = map (\<lambda>(k, s, m). (k, cut_sizes d (j - i) s,
                                                          cut_along s d i j m))
                                        (da_masks a)\<rparr>)))"

subsection \<open>The functions of the repository\<close>

datatype q_binning = Count nat | Edges variable

definition to_q_bins :: "q_binning \<Rightarrow> error + dim \<times> (nat + variable)" where
  "to_q_bins q_bins =
     (case q_bins of
        Count n \<Rightarrow> Inr (''Q'', Inl n)
      | Edges v \<Rightarrow> map_sum id (\<lambda>d. (d, Inr v)) (the_dim v))"

text \<open>
  \<^verbatim>\<open>(set(wavelength_bands.dims) - {'wavelength'}).pop()\<close>. Which element a Python set
  gives up first is not fixed by the language; \<open>pick\<close> stands for that choice among the
  remaining dimensions. An empty set raises \<^verbatim>\<open>KeyError\<close>.
\<close>

definition band_dimension :: "(dim list \<Rightarrow> dim) \<Rightarrow> variable \<Rightarrow> error + dim" where
  "band_dimension pick wavelength_bands =
     (case filter (\<lambda>d. d \<noteq> ''wavelength'') (map fst (v_dims wavelength_bands)) of
        [] \<Rightarrow> Inl KeyError
      | ds \<Rightarrow> Inr (pick ds))"

text \<open>
  The loop of \<^verbatim>\<open>_events_merge_spectra\<close>, with \<open>out\<close> as its state (\<open>None\<close> before the
  first band).
\<close>

fun events_bands ::
  "dim \<Rightarrow> data_array \<Rightarrow> data_array option \<Rightarrow> real list list \<Rightarrow> error + data_array option" where
  "events_bands band_dim q_binned out [] = Inr out"
| "events_bands band_dim q_binned out (wav_range # rest) =
     (case bin_events q_binned ''wavelength'' wav_range False of
        Inl e \<Rightarrow> Inl e
      | Inr b \<Rightarrow>
          (let band = squeeze b in
           case out of
             None \<Rightarrow> events_bands band_dim q_binned (Some band) rest
           | Some out' \<Rightarrow>
               (case concat2 band_dim out' band of
                  Inl e \<Rightarrow> Inl e
                | Inr out'' \<Rightarrow> events_bands band_dim q_binned (Some out'') rest)))"

definition events_merge_spectra ::
  "(dim list \<Rightarrow> dim) \<Rightarrow> data_array \<Rightarrow> q_binning \<Rightarrow> dim list \<Rightarrow> variable option
     \<Rightarrow> error + data_array option" where
  "events_merge_spectra pick data_q q_bins final_dims wavelength_bands =
     (case bins_concat data_q (dims_of (da_sizes data_q) - set final_dims) of
        Inl e \<Rightarrow> Inl e
      | Inr q_all_pixels \<Rightarrow>
     (case to_q_bins q_bins of
        Inl e \<Rightarrow> Inl e
      | Inr edges \<Rightarrow>
     (case bin_by q_all_pixels edges of
        Inl e \<Rightarrow> Inl e
      | Inr q_binned \<Rightarrow>
     (case wavelength_bands of
        None \<Rightarrow> Inr (Some q_binned)
      | Some bands \<Rightarrow>
     (case band_dimension pick bands of
        Inl e \<Rightarrow> Inl e
      | Inr band_dim \<Rightarrow>
     (case collapse bands ''wavelength'' of
        Inl e \<Rightarrow> Inl e
      | Inr ranges \<Rightarrow> events_bands band_dim q_binned None ranges))))))"

text \<open>
  In \<^verbatim>\<open>_dense_merge_spectra\<close> the histogram over Q followed by the sum over the dropped
  dimensions, \<^verbatim>\<open>x.hist(**edges).sum(sum_dims)\<close>, is the parameter \<open>hist_sum\<close>: what the
  functions here do with it does not depend on how the library distributes the counts.
  \<^verbatim>\<open>wav_range[0]\<close> and \<^verbatim>\<open>wav_range[1]\<close> need two entries.
\<close>

fun dense_bands ::
  "(data_array \<Rightarrow> dim \<times> (nat + variable) \<Rightarrow> dim set \<Rightarrow> error + data_array)
     \<Rightarrow> data_array \<Rightarrow> dim \<times> (nat + variable) \<Rightarrow> dim set \<Rightarrow> real list list
     \<Rightarrow> error + data_array list" where
  "dense_bands hist_sum data_q edges sum_dims [] = Inr []"
| "dense_bands hist_sum data_q edges sum_dims (wav_range # rest) =
     (case wav_range of
        lo # hi # _ \<Rightarrow>
          (case slice_by_value data_q ''wavelength'' lo hi of
             Inl e \<Rightarrow> Inl e
           | Inr band \<Rightarrow>
               (case hist_sum band edges sum_dims of
                  Inl e \<Rightarrow> Inl e
                | Inr h \<Rightarrow>
                    (case dense_bands hist_sum data_q edges sum_dims rest of
                       Inl e \<Rightarrow> Inl e
                     | Inr hs \<Rightarrow> Inr (h # hs))))
      | _ \<Rightarrow> Inl ValueError)"

definition dense_merge_spectra ::
  "(dim list \<Rightarrow> dim)
     \<Rightarrow> (data_array \<Rightarrow> dim \<times> (nat + variable) \<Rightarrow> dim set \<Rightarrow> error + data_array)
     \<Rightarrow> data_array \<Rightarrow> q_binning \<Rightarrow> dim list \<Rightarrow> variable option \<Rightarrow> error + data_array" where
  "dense_merge_spectra pick hist_sum data_q q_bins final_dims wavelength_bands =
     (let sum_dims = dims_of (da_sizes data_q) - set final_dims in
      case to_q_bins q_bins of
        Inl e \<Rightarrow> Inl e
      | Inr edges \<Rightarrow>
     (case wavelength_bands of
        None \<Rightarrow> hist_sum data_q edges sum_dims
      | Some bands \<Rightarrow>
     (case band_dimension pick bands of
        Inl e \<Rightarrow> Inl e
      | Inr band_dim \<Rightarrow>
     (case collapse bands ''wavelength'' of
        Inl e \<Rightarrow> Inl e
      | Inr ranges \<Rightarrow>
     (case dense_bands hist_sum data_q edges sum_dims ranges of
        Inl e \<Rightarrow> Inl e
      | Inr bands' \<Rightarrow> concat_list band_dim bands')))))"

text \<open>
  \<^verbatim>\<open>merge_spectra\<close>. The event path returns \<^verbatim>\<open>None\<close> when there is no band at all, and
  \<^verbatim>\<open>None\<close> has no \<^verbatim>\<open>squeeze\<close>.
\<close>

definition merge_spectra ::
  "(dim list \<Rightarrow> dim)
     \<Rightarrow> (data_array \<Rightarrow> dim \<times> (nat + variable) \<Rightarrow> dim set \<Rightarrow> error + data_array)
     \<Rightarrow> data_array \<Rightarrow> q_binning \<Rightarrow> variable option \<Rightarrow> dim list option
     \<Rightarrow> error + data_array" where
  "merge_spectra pick hist_sum data q_bins wavelength_bands final_dims =
     (let final_dims' = (case final_dims of None \<Rightarrow> [''Q''] | Some fd \<Rightarrow> fd) in
      case (case wavelength_bands of
              None \<Rightarrow> Inr None
            | Some bands \<Rightarrow>
                if length (v_dims bands) = 1 then map_sum id Some (fold_band bands)
                else Inr (Some bands)) of
        Inl e \<Rightarrow> Inl e
      | Inr wavelength_bands' \<Rightarrow>
          if is_binned data then
            (case events_merge_spectra pick data q_bins final_dims' wavelength_bands' of
               Inl e \<Rightarrow> Inl e
             | Inr None \<Rightarrow> Inl AttributeError
             | Inr (Some out) \<Rightarrow> Inr (squeeze out))
          else
            (case dense_merge_spectra pick hist_sum data q_bins final_dims' wavelength_bands' of
               Inl e \<Rightarrow> Inl e
             | Inr out \<Rightarrow> Inr (squeeze out)))"

section \<open>Example quantities\<close>

text \<open>The per-cell numbers of a quantity once it is in dense form.\<close>

definition cell_totals :: "data_array \<Rightarrow> real list" where
  "cell_totals a =
     (case da_data a of
        Dense xs _ \<Rightarrow> xs
      | Binned _ es \<Rightarrow> map (\<lambda>c. sum_list (map e_weight c)) es)"

definition q_edges :: variable where
  "q_edges = \<lparr>v_dims = [(''Q'', 4)], v_values = [0, 1, 2, 3], v_variances = None\<rparr>"

definition iofq :: "real list \<Rightarrow> data_array" where
  "iofq xs = \<lparr>da_sizes = [(''Q'', length xs)], da_data = Dense xs None,
              da_coords = [(''Q'', q_edges)], da_masks = []\<rparr>"

definition ev :: "real \<Rightarrow> real \<Rightarrow> event" where
  "ev w q = \<lparr>e_weight = w, e_variance = w, e_coords = [(''Q'', q)]\<rparr>"

definition iofq_events :: "event list list \<Rightarrow> data_array" where
  "iofq_events es = \<lparr>da_sizes = [(''Q'', length es)], da_data = Binned True es,
                     da_coords = [(''Q'', q_edges)], da_masks = []\<rparr>"

definition scalar :: "real \<Rightarrow> data_array" where
  "scalar x = \<lparr>da_sizes = [], da_data = Dense [x] None, da_coords = [], da_masks = []\<rparr>"

definition wavelength_edges :: variable where
  "wavelength_edges =
     \<lparr>v_dims = [(''wavelength'', 3)], v_values = [2, 9, 16], v_variances = None\<rparr>"

definition clean_monitor :: "real list \<Rightarrow> real list option \<Rightarrow> data_array" where
  "clean_monitor xs vs = \<lparr>da_sizes = [(''wavelength'', length xs)], da_data = Dense xs vs,
                    da_coords = [(''wavelength'', wavelength_edges)], da_masks = []\<rparr>"

text \<open>
  The relation between an event and the same event after the division by a histogram
  row: the event's Q lies in bin \<open>j\<close> of the edges, and weight and variance are divided
  by the value of the row in that bin and by its square.
\<close>

definition divided_in_bin :: "real list \<Rightarrow> real list \<Rightarrow> event \<Rightarrow> event \<Rightarrow> bool" where
  "divided_in_bin edges row e e' =
     (\<exists>q j. map_of (e_coords e) ''Q'' = Some q \<and> Suc j < length edges
            \<and> edges ! j \<le> q \<and> q < edges ! Suc j \<and> j < length row \<and> row ! j \<noteq> 0
            \<and> e' = e\<lparr>e_weight := e_weight e / row ! j,
                      e_variance := e_variance e / (row ! j)\<^sup>2\<rparr>)"

text \<open>Values and variances have one entry per cell; coordinate names are distinct.\<close>

definition well_formed :: "data_array \<Rightarrow> bool" where
  "well_formed a =
     (distinct (map fst (da_coords a)) \<and>
      (case da_data a of
         Dense xs vs \<Rightarrow>
           length xs = volume (da_sizes a)
           \<and> (case vs of None \<Rightarrow> True | Some v \<Rightarrow> length v = length xs)
       | Binned f es \<Rightarrow> length es = volume (da_sizes a)))"

text \<open>A variance-free quantity of ones over the bins of \<open>n\<close>, with coordinates of \<open>n\<close>.\<close>

definition ones_over :: "data_array \<Rightarrow> data_array \<Rightarrow> bool" where
  "ones_over n d =
     (da_sizes d = da_sizes n \<and> da_data d = Dense (replicate (volume (da_sizes n)) 1) None
      \<and> set (da_coords d) \<subseteq> set (da_coords n) \<and> da_masks d = [])"

definition denominator_q :: "real list \<Rightarrow> real list option \<Rightarrow> data_array" where
  "denominator_q ys vs = \<lparr>da_sizes = [(''Q'', length ys)], da_data = Dense ys vs,
                          da_coords = [(''Q'', q_edges)], da_masks = []\<rparr>"

text \<open>A dense quantity over the bins \<open>d\<close> with the coordinates \<open>c\<close> and no mask.\<close>

definition clean_on :: "sizes \<Rightarrow> (string \<times> variable) list \<Rightarrow> data_array \<Rightarrow> bool" where
  "clean_on d c m =
     (da_sizes m = d \<and> da_coords m = c \<and> distinct (map fst c) \<and> da_masks m = []
      \<and> \<not> is_binned m)"

text \<open>The value of a variable in cell \<open>i\<close>; a scalar has the same value in every cell.\<close>

definition cell :: "sizes \<Rightarrow> real list \<Rightarrow> nat \<Rightarrow> real" where
  "cell d xs i = (if d = [] then hd xs else xs ! i)"

definition shaped :: "variable \<Rightarrow> bool" where
  "shaped v = (length (v_values v) = volume (v_dims v))"

text \<open>The invariant of a data array: coordinates and masks span dimensions of the data.\<close>

definition dims_within :: "data_array \<Rightarrow> bool" where
  "dims_within a =
     (list_all (\<lambda>(k, c). dims_of (v_dims c) \<subseteq> dims_of (da_sizes a)) (da_coords a)
      \<and> list_all (\<lambda>(k, s, m). dims_of s \<subseteq> dims_of (da_sizes a)) (da_masks a))"

text \<open>
  A detector of two pixels and two time-of-flight bins; the pixels are 5 and 10 away
  from the sample.
\<close>

definition per_pixel :: "real list \<Rightarrow> variable" where
  "per_pixel xs = \<lparr>v_dims = [(''pixel'', length xs)], v_values = xs, v_variances = None\<rparr>"

definition uniform :: "real \<Rightarrow> variable" where
  "uniform x = \<lparr>v_dims = [], v_values = [x], v_variances = None\<rparr>"

definition detector :: data_array where
  "detector =
     \<lparr>da_sizes = [(''pixel'', 2), (''tof'', 2)],
      da_data = Dense [1, 2, 3, 4] None,
      da_coords = [(''pixel_width'', uniform 2), (''pixel_height'', per_pixel [3, 4]),
                   (''tof'', \<lparr>v_dims = [(''tof'', 3)], v_values = [0, 1, 2],
                               v_variances = None\<rparr>),
                   (''pixel_id'', per_pixel [7, 8])],
      da_masks = [(''bad_pixel'', [(''pixel'', 2)], [False, True]),
                  (''bad_tof'', [(''tof'', 2)], [True, False])]\<rparr>"

definition detector_L2 :: "data_array \<Rightarrow> error + variable" where
  "detector_L2 a = Inr (per_pixel [5, 10])"

text \<open>
  A calibration curve given at distinct wavelengths, at least two of them, one value
  per wavelength, without mask.
\<close>

definition point_curve :: "data_array \<Rightarrow> variable \<Rightarrow> bool" where
  "point_curve a c =
     (map_of (da_coords a) ''wavelength'' = Some c \<and> da_masks a = []
      \<and> distinct (v_values c) \<and> 2 \<le> length (v_values c)
      \<and> (case da_data a of
            Dense ys vs \<Rightarrow> da_sizes a = [(''wavelength'', length ys)]
                           \<and> length (v_values c) = length ys
          | Binned f es \<Rightarrow> False))"

text \<open>The points of a curve, in the order of their wavelengths.\<close>

definition curve_points :: "data_array \<Rightarrow> variable \<Rightarrow> (real \<times> real) list" where
  "curve_points a c = sort_key fst (zip (v_values c) (cell_totals a))"

text \<open>The straight line through two points.\<close>

definition line :: "real \<times> real \<Rightarrow> real \<times> real \<Rightarrow> real \<Rightarrow> real" where
  "line p q x = (snd q - snd p) / (fst q - fst p) * (x - fst p) + snd p"

definition direct_beam :: "real list option \<Rightarrow> data_array" where
  "direct_beam vs =
     \<lparr>da_sizes = [(''wavelength'', 3)], da_data = Dense [10, 20, 40] vs,
      da_coords = [(''wavelength'', \<lparr>v_dims = [(''wavelength'', 3)], v_values = [4, 8, 12],
                                     v_variances = None\<rparr>)],
      da_masks = []\<rparr>"





text \<open>
  Events of two pixels with their Q and wavelength, Q bin edges, and a histogram-and-sum
  for dense data whose Q coordinate covers all dimensions and whose dimensions are all
  summed: every value goes to the Q bin of its cell.
\<close>

definition neutron :: "real \<Rightarrow> real \<Rightarrow> event" where
  "neutron q w = \<lparr>e_weight = 1, e_variance = 1, e_coords = [(''Q'', q), (''wavelength'', w)]\<rparr>"

definition pixel_events :: data_array where
  "pixel_events =
     \<lparr>da_sizes = [(''pixel'', 2)],
      da_data = Binned True [[neutron 0.5 3, neutron 1.5 5], [neutron 0.7 7, neutron 2.5 14]],
      da_coords = [(''pixel_id'', per_pixel [7, 8])], da_masks = []\<rparr>"

definition flat_band :: "real list \<Rightarrow> variable" where
  "flat_band xs = \<lparr>v_dims = [(''wavelength'', length xs)], v_values = xs, v_variances = None\<rparr>"

definition bands_2d :: "nat \<Rightarrow> real list \<Rightarrow> variable" where
  "bands_2d n xs = \<lparr>v_dims = [(''band'', n), (''wavelength'', 2)], v_values = xs,
                    v_variances = None\<rparr>"

definition hist_sum_flat ::
  "data_array \<Rightarrow> dim \<times> (nat + variable) \<Rightarrow> dim set \<Rightarrow> error + data_array" where
  "hist_sum_flat a spec sum_dims =
     (case (da_data a, spec, map_of (da_coords a) (fst spec)) of
        (Dense xs None, (d, Inr edges), Some q) \<Rightarrow>
          if v_dims q = da_sizes a \<and> dims_of (da_sizes a) \<subseteq> sum_dims
          then Inr \<lparr>da_sizes = [(d, length (v_values edges) - 1)],
                    da_data = Dense (map (\<lambda>(lo, hi). sum_list (map snd (filter
                                       (\<lambda>(x, y). lo \<le> x \<and> x < hi) (zip (v_values q) xs))))
                                     (bin_pairs (v_values edges))) None,
                    da_coords = [(d, edges)], da_masks = []\<rparr>
          else Inl OutsideModel
      | _ \<Rightarrow> Inl OutsideModel)"


text \<open>
  The band coordinate asks for \<open>n\<close> bands along \<open>b\<close>: it is flat along wavelength
  (one band, along \<^verbatim>\<open>band\<close> once folded), or \<open>b\<close> is its one dimension besides
  wavelength and has size \<open>n\<close>.
\<close>

definition band_layout :: "variable \<Rightarrow> dim \<Rightarrow> nat \<Rightarrow> bool" where
  "band_layout v b n =
     (if length (v_dims v) = 1
      then map fst (v_dims v) = [''wavelength''] \<and> b = ''band'' \<and> n = 1
      else filter (\<lambda>(d, m). d \<noteq> ''wavelength'') (v_dims v) = [(b, n)])"

text \<open>The events of both pixels in the three Q bins, and the same split into two bands.\<close>

definition merged_q :: data_array where
  "merged_q =
     \<lparr>da_sizes = [(''Q'', 3)],
      da_data = Binned True [[neutron 0.5 3, neutron 0.7 7], [neutron 1.5 5], [neutron 2.5 14]],
      da_coords = [(''Q'', q_edges)], da_masks = []\<rparr>"

definition merged_two_bands :: data_array where
  "merged_two_bands =
     \<lparr>da_sizes = [(''band'', 2), (''Q'', 3)],
      da_data = Binned True [[neutron 0.5 3], [neutron 1.5 5], [],
                             [neutron 0.7 7], [], [neutron 2.5 14]],
      da_coords = [(''Q'', q_edges), (''wavelength'', bands_2d 2 [2, 6, 6, 16])],
      da_masks = []\<rparr>"

text \<open>
  A band coordinate with two dimensions besides wavelength (two ranges along \<open>a\<close>, one
  along \<open>b\<close>), one with none, and what the merge of the two pixels returns for the first
  when the set gives up \<open>a\<close>.
\<close>

definition bands_3d :: variable where
  "bands_3d = \<lparr>v_dims = [(''a'', 2), (''b'', 1), (''wavelength'', 2)],
               v_values = [2, 6, 6, 16], v_variances = None\<rparr>"

definition bands_0d :: variable where
  "bands_0d = \<lparr>v_dims = [], v_values = [2], v_variances = None\<rparr>"

definition merged_along_a :: data_array where
  "merged_along_a =
     \<lparr>da_sizes = [(''a'', 2), (''Q'', 3)],
      da_data = Binned True [[neutron 0.5 3], [neutron 1.5 5], [],
                             [neutron 0.7 7], [], [neutron 2.5 14]],
      da_coords = [(''Q'', q_edges),
                   (''wavelength'', \<lparr>v_dims = [(''a'', 2), (''wavelength'', 2)],
                                     v_values = [2, 6, 6, 16], v_variances = None\<rparr>)],
      da_masks = []\<rparr>"

text \<open>The dimensions of a band coordinate besides wavelength, and how many ranges they span.\<close>

definition other_dims :: "variable \<Rightarrow> dim list" where
  "other_dims v = filter (\<lambda>d. d \<noteq> ''wavelength'') (map fst (v_dims v))"

definition range_count :: "variable \<Rightarrow> nat" where
  "range_count v = volume (filter (\<lambda>(d, n). d \<noteq> ''wavelength'') (v_dims v))"






text \<open>
  The two pixels with the second one masked, and what the merge into two bands returns
  then: the events of the first pixel only, and no mask.
\<close>

definition masked_pixel_events :: data_array where
  "masked_pixel_events = pixel_events\<lparr>da_masks := [(''bad'', [(''pixel'', 2)], [False, True])]\<rparr>"

definition merged_unmasked :: data_array where
  "merged_unmasked =
     \<lparr>da_sizes = [(''band'', 2), (''Q'', 3)],
      da_data = Binned True [[neutron 0.5 3], [neutron 1.5 5], [], [], [], []],
      da_coords = [(''Q'', q_edges), (''wavelength'', bands_2d 2 [2, 6, 6, 16])],
      da_masks = []\<rparr>"

section \<open>Properties of the arithmetic\<close>

lemma combine_same_dims:
  "combine f (d, ca) (d, cb) = map_sum id (Pair d) (elementwise f ca cb)"
  by (simp add: combine_def)

lemma elementwise_no_div:
  "f \<noteq> Div \<Longrightarrow> \<exists>vs. elementwise f (xs, vxs) (ys, vys) = Inr (map2 (op_value f) xs ys, vs)"
  by (simp add: elementwise_def)

lemma elementwise_div:
  "0 \<notin> set ys \<Longrightarrow> \<exists>vs. elementwise f (xs, vxs) (ys, vys) = Inr (map2 (op_value f) xs ys, vs)"
  by (simp add: elementwise_def)

lemma elementwise_no_variances:
  "f \<noteq> Div \<or> 0 \<notin> set ys \<Longrightarrow>
     elementwise f (xs, None) (ys, None) = Inr (map2 (op_value f) xs ys, None)"
  by (auto simp: elementwise_def)

lemma dense_op_same_dims:
  assumes "da_data a = Dense xs vxs" and "da_data b = Dense ys vys"
    and "da_sizes a = da_sizes b"
    and "coords_agree (da_coords a) (da_coords b)"
    and "merge_masks (da_masks a) (da_masks b) = Inr ms"
    and "f \<noteq> Div \<or> 0 \<notin> set ys"
  shows "\<exists>vs. dense_op f a b =
           Inr \<lparr>da_sizes = da_sizes a,
                da_data = Dense (map2 (op_value f) xs ys) vs,
                da_coords = merge_coords (da_coords a) (da_coords b),
                da_masks = ms\<rparr>"
proof -
  obtain vs where "elementwise f (xs, vxs) (ys, vys) = Inr (map2 (op_value f) xs ys, vs)"
    using assms(6) elementwise_no_div elementwise_div by blast
  then show ?thesis
    using assms(1-5) by (simp add: dense_op_def combine_same_dims)
qed

lemma to_dense_cases:
  "(if is_binned a then bins_sum a else Inr a) = Inr a' \<Longrightarrow>
     \<exists>vs. da_data a' = Dense (cell_totals a) vs \<and> da_sizes a' = da_sizes a
          \<and> da_coords a' = da_coords a \<and> da_masks a' = da_masks a"
  by (cases "da_data a")
     (auto simp: is_binned_def bins_sum_def cell_totals_def split: if_splits)

lemma to_dense_total:
  "\<exists>a'. (if is_binned a then bins_sum a else Inr a) = Inr a'"
  by (cases "da_data a") (auto simp: is_binned_def bins_sum_def)

lemma map2_op_value [simp]:
  "map2 (op_value Sub) xs ys = map2 (-) xs ys"
  "map2 (op_value Div) xs ys = map2 (/) xs ys"
  "map2 (op_value Mul) xs ys = map2 (*) xs ys"
  "map2 (op_value Add) xs ys = map2 (+) xs ys"
  by (rule map_cong; auto)+

section \<open>Background subtraction\<close>

text \<open>
  C9. \<^verbatim>\<open>subtract_background\<close> brings each operand to dense form (an event-form
  operand by summing the events of every bin) and subtracts cell by cell: for operands
  over the same bins the result is dense and its values are the differences of the
  per-bin totals. For I(Q) = [10, 20, 30] and background [1, 2, 3] over three Q bins the
  result is [9, 18, 27].
\<close>

theorem subtract_background_elementwise:
  "(\<forall>(s::data_array) (b::data_array) ms. da_sizes s = da_sizes b
       \<longrightarrow> coords_agree (da_coords s) (da_coords b)
       \<longrightarrow> merge_masks (da_masks s) (da_masks b) = Inr ms
       \<longrightarrow> (\<exists>r vs. subtract_background s b = Inr r \<and> da_sizes r = da_sizes s
              \<and> da_data r = Dense (map2 (-) (cell_totals s) (cell_totals b)) vs))
   \<and> subtract_background (iofq [10, 20, 30]) (iofq [1, 2, 3]) = Inr (iofq [9, 18, 27])"
proof (intro conjI allI impI)
  fix s b :: data_array and ms
  assume sz: "da_sizes s = da_sizes b"
    and co: "coords_agree (da_coords s) (da_coords b)"
    and ma: "merge_masks (da_masks s) (da_masks b) = Inr ms"
  obtain s' where s': "(if is_binned s then bins_sum s else Inr s) = Inr s'"
    using to_dense_total by blast
  obtain b' where b': "(if is_binned b then bins_sum b else Inr b) = Inr b'"
    using to_dense_total by blast
  from to_dense_cases [OF s'] obtain vs where
    ds: "da_data s' = Dense (cell_totals s) vs" "da_sizes s' = da_sizes s"
        "da_coords s' = da_coords s" "da_masks s' = da_masks s"
    by blast
  from to_dense_cases [OF b'] obtain vb where
    db: "da_data b' = Dense (cell_totals b) vb" "da_sizes b' = da_sizes b"
        "da_coords b' = da_coords b" "da_masks b' = da_masks b"
    by blast
  have "subtract_background s b = dense_op Sub s' b'"
    using s' b' by (simp add: subtract_background_def)
  moreover have "\<exists>vz. dense_op Sub s' b' = Inr \<lparr>da_sizes = da_sizes s',
                da_data = Dense (map2 (op_value Sub) (cell_totals s) (cell_totals b)) vz,
                da_coords = merge_coords (da_coords s') (da_coords b'),
                da_masks = ms\<rparr>"
    by (rule dense_op_same_dims) (use ds db sz co ma in simp_all)
  ultimately show "\<exists>r vs. subtract_background s b = Inr r \<and> da_sizes r = da_sizes s
              \<and> da_data r = Dense (map2 (-) (cell_totals s) (cell_totals b)) vs"
    using ds(2) by auto
next
  show "subtract_background (iofq [10, 20, 30]) (iofq [1, 2, 3]) = Inr (iofq [9, 18, 27])"
    by (simp add: subtract_background_def is_binned_def iofq_def dense_op_def
          coords_agree_def combine_def elementwise_def merge_masks_def merge_coords_def)
qed

theorem subtract_background_elementwise_witness:
  "\<exists>r vs. subtract_background (iofq_events [[ev 4 0.5, ev 6 0.7], [ev 20 1.5], [ev 30 2.5]])
              (iofq [1, 2, 3]) = Inr r
          \<and> da_sizes r = [(''Q'', 3)] \<and> da_data r = Dense [9, 18, 27] vs"
proof -
  let ?s = "iofq_events [[ev 4 0.5, ev 6 0.7], [ev 20 1.5], [ev 30 2.5]]"
  let ?b = "iofq [1, 2, 3]"
  have h1: "da_sizes ?s = da_sizes ?b" by (simp add: iofq_events_def iofq_def)
  have h2: "coords_agree (da_coords ?s) (da_coords ?b)"
    by (simp add: iofq_events_def iofq_def coords_agree_def)
  have h3: "merge_masks (da_masks ?s) (da_masks ?b) = Inr []"
    by (simp add: iofq_events_def iofq_def merge_masks_def)
  have c: "map2 (-) (cell_totals ?s) (cell_totals ?b) = [9, 18, 27]"
    by (simp add: iofq_events_def iofq_def cell_totals_def ev_def)
  have s: "da_sizes ?s = [(''Q'', 3)]" by (simp add: iofq_events_def)
  from subtract_background_elementwise h1 h2 h3
  have "\<exists>r vs. subtract_background ?s ?b = Inr r \<and> da_sizes r = da_sizes ?s
          \<and> da_data r = Dense (map2 (-) (cell_totals ?s) (cell_totals ?b)) vs"
    by blast
  then show ?thesis unfolding c s .
qed


section \<open>Transmission fraction\<close>

lemma coords_agree_refl: "distinct (map fst c) \<Longrightarrow> coords_agree c c"
  by (auto simp: coords_agree_def list_all_iff)

lemma merge_coords_same: "merge_coords c c = c"
proof -
  have "filter (\<lambda>(k, v). map_of c k = None) c = []"
    by (auto simp: filter_empty_conv map_of_eq_None_iff intro: rev_image_eqI)
  then show ?thesis by (simp add: merge_coords_def)
qed

lemma merge_masks_empty: "merge_masks [] [] = Inr []"
  by (simp add: merge_masks_def)

lemma clean_on_dense:
  "clean_on d c m \<Longrightarrow> \<exists>vs. da_data m = Dense (cell_totals m) vs"
  by (cases "da_data m") (auto simp: clean_on_def is_binned_def cell_totals_def)

lemma dense_op_clean:
  assumes a: "clean_on d c a" and b: "clean_on d c b"
    and z: "f \<noteq> Div \<or> 0 \<notin> set (cell_totals b)"
  shows "\<exists>r. dense_op f a b = Inr r \<and> clean_on d c r
              \<and> cell_totals r = map2 (op_value f) (cell_totals a) (cell_totals b)"
proof -
  from clean_on_dense [OF a] obtain va where da: "da_data a = Dense (cell_totals a) va" ..
  from clean_on_dense [OF b] obtain vb where db: "da_data b = Dense (cell_totals b) vb" ..
  have "\<exists>vs. dense_op f a b =
           Inr \<lparr>da_sizes = da_sizes a,
                da_data = Dense (map2 (op_value f) (cell_totals a) (cell_totals b)) vs,
                da_coords = merge_coords (da_coords a) (da_coords b),
                da_masks = []\<rparr>"
    using a b z
    by (intro dense_op_same_dims [OF da db])
       (auto simp: clean_on_def coords_agree_refl merge_masks_empty)
  then show ?thesis
    using a b
    by (auto simp: clean_on_def merge_coords_same is_binned_def cell_totals_def
             simp del: map2_op_value)
qed

text \<open>
  C3. For four clean monitors over the same wavelength bins, with no zero in either
  divisor, \<^verbatim>\<open>transmission_fraction\<close> returns, bin by bin,
  (sample transmission / direct transmission) * (direct incident / sample incident).
  For the scalars 100, 80, 90 and 95 it returns 72/95, which is within 0.0001 of 0.7579.
\<close>

theorem transmission_fraction_formula:
  "(\<forall>d c si st di dt.
       clean_on d c si \<longrightarrow> clean_on d c st \<longrightarrow> clean_on d c di \<longrightarrow> clean_on d c dt
       \<longrightarrow> 0 \<notin> set (cell_totals dt) \<longrightarrow> 0 \<notin> set (cell_totals si)
       \<longrightarrow> (\<exists>r. transmission_fraction si st di dt = Inr r \<and> clean_on d c r
              \<and> cell_totals r =
                  map2 (*) (map2 (/) (cell_totals st) (cell_totals dt))
                           (map2 (/) (cell_totals di) (cell_totals si))))
   \<and> (\<exists>x. transmission_fraction (scalar 100) (scalar 80) (scalar 90) (scalar 95)
              = Inr (scalar x)
          \<and> \<bar>x - 0.7579\<bar> < 0.0001)"
proof (intro conjI allI impI)
  fix d c si st di dt
  assume si: "clean_on d c si" and st: "clean_on d c st"
    and di: "clean_on d c di" and dt: "clean_on d c dt"
    and z1: "0 \<notin> set (cell_totals dt)" and z2: "0 \<notin> set (cell_totals si)"
  from dense_op_clean [OF st dt, of Div] z1 obtain l where
    l: "dense_op Div st dt = Inr l" "clean_on d c l"
       "cell_totals l = map2 (/) (cell_totals st) (cell_totals dt)"
    by auto
  from dense_op_clean [OF di si, of Div] z2 obtain r where
    r: "dense_op Div di si = Inr r" "clean_on d c r"
       "cell_totals r = map2 (/) (cell_totals di) (cell_totals si)"
    by auto
  from dense_op_clean [OF l(2) r(2), of Mul] obtain t where
    t: "dense_op Mul l r = Inr t" "clean_on d c t"
       "cell_totals t = map2 (*) (cell_totals l) (cell_totals r)"
    by auto
  have "transmission_fraction si st di dt = Inr t"
    using l(1) r(1) t(1) by (simp add: transmission_fraction_def)
  then show "\<exists>r. transmission_fraction si st di dt = Inr r \<and> clean_on d c r
              \<and> cell_totals r =
                  map2 (*) (map2 (/) (cell_totals st) (cell_totals dt))
                           (map2 (/) (cell_totals di) (cell_totals si))"
    using t(2,3) l(3) r(3) by simp
next
  have "transmission_fraction (scalar 100) (scalar 80) (scalar 90) (scalar 95)
          = Inr (scalar (72 / 95))"
    by (simp add: transmission_fraction_def scalar_def dense_op_def coords_agree_def
          combine_def elementwise_def merge_masks_def merge_coords_def)
  moreover have "\<bar>(72 / 95 :: real) - 0.7579\<bar> < 0.0001" by simp
  ultimately show "\<exists>x. transmission_fraction (scalar 100) (scalar 80) (scalar 90) (scalar 95)
              = Inr (scalar x) \<and> \<bar>x - 0.7579\<bar> < 0.0001"
    by blast
qed


theorem transmission_fraction_formula_witness:
  "\<exists>r. transmission_fraction (clean_monitor [100, 50] None) (clean_monitor [80, 40] None)
            (clean_monitor [90, 45] None) (clean_monitor [95, 20] None) = Inr r
       \<and> cell_totals r = [72 / 95, 9 / 5]"
proof -
  let ?d = "[(''wavelength'', 2 :: nat)]" and ?c = "[(''wavelength'', wavelength_edges)]"
  have c: "clean_on ?d ?c (clean_monitor [x, y] None)" for x y
    by (simp add: clean_on_def clean_monitor_def is_binned_def)
  have t: "cell_totals (clean_monitor xs None) = xs" for xs
    by (simp add: cell_totals_def clean_monitor_def)
  have z: "0 \<notin> set (cell_totals (clean_monitor [95, 20] None))"
    "0 \<notin> set (cell_totals (clean_monitor [100, 50] None))"
    by (simp_all add: t)
  from transmission_fraction_formula [THEN conjunct1, rule_format,
      of ?d ?c "clean_monitor [100, 50] None" "clean_monitor [80, 40] None"
         "clean_monitor [90, 45] None" "clean_monitor [95, 20] None", OF c c c c z]
  show ?thesis by (auto simp: t)
qed


section \<open>Normalization\<close>

lemma traverse_Inr:
  "traverse f xs = Inr ys \<Longrightarrow> list_all2 (\<lambda>x y. f x = Inr y) xs ys"
  by (induction xs arbitrary: ys) (auto split: sum.splits)

lemma find_bin_sound:
  "find_bin es x = Some j \<Longrightarrow> Suc j < length es \<and> es ! j \<le> x \<and> x < es ! Suc j"
  by (induction es x arbitrary: j rule: find_bin.induct) (auto split: if_splits)

lemma divide_event_sound:
  "divide_event edges row ''Q'' e = Inr e' \<Longrightarrow> divided_in_bin edges row e e'"
  unfolding divide_event_def divided_in_bin_def
  by (auto split: option.splits if_splits dest: find_bin_sound)

lemma dense_op_dense: "dense_op f a b = Inr r \<Longrightarrow> \<not> is_binned r"
  by (auto simp: dense_op_def is_binned_def split: content.splits if_splits sum.splits)

lemma bins_sum_dense: "bins_sum a = Inr r \<Longrightarrow> \<not> is_binned r"
  by (auto simp: bins_sum_def is_binned_def split: content.splits)

lemma bins_div_lookup_sound:
  assumes "bins_div_lookup n d ''Q'' = Inr r"
  shows "\<exists>f es es' edges. da_data n = Binned f es \<and> r = n\<lparr>da_data := Binned f es'\<rparr>
           \<and> map_of (da_coords d) ''Q'' = Some edges
           \<and> list_all2 (\<lambda>(i, c) c'. \<exists>row. lookup_row d ''Q'' (da_sizes n) i = Inr row
                          \<and> list_all2 (divided_in_bin (v_values edges) row) c c')
                 (zip [0 ..< length es] es) es'"
proof -
  from assms obtain f es where n: "da_data n = Binned f es"
    by (auto simp: bins_div_lookup_def split: content.splits)
  from assms n obtain edges where e: "map_of (da_coords d) ''Q'' = Some edges"
    by (auto simp: bins_div_lookup_def split: option.splits)
  let ?g = "\<lambda>(i, c). case lookup_row d ''Q'' (da_sizes n) i of
                         Inl e \<Rightarrow> Inl e
                       | Inr row \<Rightarrow>
                           if length (v_values edges) \<noteq> Suc (length row)
                           then Inl OutsideModel
                           else traverse (divide_event (v_values edges) row ''Q'') c"
  from assms n e obtain es' where
    t: "traverse ?g (zip [0 ..< length es] es) = Inr es'" and r: "r = n\<lparr>da_data := Binned f es'\<rparr>"
    by (auto simp: bins_div_lookup_def split: sum.splits)
  have "list_all2 (\<lambda>x y. ?g x = Inr y) (zip [0 ..< length es] es) es'"
    using traverse_Inr [OF t] .
  then have "list_all2 (\<lambda>(i, c) c'. \<exists>row. lookup_row d ''Q'' (da_sizes n) i = Inr row
                          \<and> list_all2 (divided_in_bin (v_values edges) row) c c')
                 (zip [0 ..< length es] es) es'"
  proof (rule list_all2_mono)
    fix x y assume "?g x = Inr y"
    then show "(case x of (i, c) \<Rightarrow> \<lambda>c'. \<exists>row. lookup_row d ''Q'' (da_sizes n) i = Inr row
                          \<and> list_all2 (divided_in_bin (v_values edges) row) c c') y"
      by (cases x)
         (auto split: sum.splits if_splits
               dest!: traverse_Inr elim!: list_all2_mono dest: divide_event_sound)
  qed
  with n e r show ?thesis by blast
qed

text \<open>
  C2. \<^verbatim>\<open>normalize_iofq\<close> has three cases. A numerator in event form under a denominator
  with variances is histogrammed first and then divided cell by cell, and whatever is
  returned is dense. A numerator in event form under a denominator without variances
  keeps its events: each is divided by the value the denominator has in the Q bin that
  contains the event's Q. A dense numerator is divided cell by cell.
\<close>

theorem normalize_dispatch:
  fixes n d :: data_array
  shows "(has_variances d \<and> is_binned n \<longrightarrow>
            normalize_iofq n d = (case hist_bins n of Inl e \<Rightarrow> Inl e | Inr h \<Rightarrow> dense_op Div h d)
            \<and> (\<forall>r. normalize_iofq n d = Inr r \<longrightarrow> \<not> is_binned r))
       \<and> (\<not> has_variances d \<and> is_binned n \<longrightarrow>
            normalize_iofq n d = bins_div_lookup n d ''Q''
            \<and> (\<forall>r. normalize_iofq n d = Inr r \<longrightarrow>
                 (\<exists>f es es' edges. da_data n = Binned f es \<and> r = n\<lparr>da_data := Binned f es'\<rparr>
                    \<and> map_of (da_coords d) ''Q'' = Some edges
                    \<and> list_all2 (\<lambda>(i, c) c'. \<exists>row. lookup_row d ''Q'' (da_sizes n) i = Inr row
                                   \<and> list_all2 (divided_in_bin (v_values edges) row) c c')
                          (zip [0 ..< length es] es) es')))
       \<and> (\<not> is_binned n \<longrightarrow> normalize_iofq n d = dense_op Div n d)"
proof (intro conjI impI allI)
  assume h: "has_variances d \<and> is_binned n"
  show eq: "normalize_iofq n d
              = (case hist_bins n of Inl e \<Rightarrow> Inl e | Inr h \<Rightarrow> dense_op Div h d)"
    using h by (auto simp: normalize_iofq_def hist_bins_def split: sum.splits dest: bins_sum_dense)
  fix r assume "normalize_iofq n d = Inr r"
  then show "\<not> is_binned r"
    unfolding eq by (auto split: sum.splits dest: dense_op_dense)
next
  assume h: "\<not> has_variances d \<and> is_binned n"
  show eq: "normalize_iofq n d = bins_div_lookup n d ''Q''"
    using h by (simp add: normalize_iofq_def)
  fix r assume "normalize_iofq n d = Inr r"
  then show "\<exists>f es es' edges. da_data n = Binned f es \<and> r = n\<lparr>da_data := Binned f es'\<rparr>
                    \<and> map_of (da_coords d) ''Q'' = Some edges
                    \<and> list_all2 (\<lambda>(i, c) c'. \<exists>row. lookup_row d ''Q'' (da_sizes n) i = Inr row
                                   \<and> list_all2 (divided_in_bin (v_values edges) row) c c')
                          (zip [0 ..< length es] es) es'"
    unfolding eq by (rule bins_div_lookup_sound)
next
  assume "\<not> is_binned n"
  then show "normalize_iofq n d = dense_op Div n d"
    by (simp add: normalize_iofq_def)
qed

lemmas example_defs = iofq_events_def iofq_def denominator_q_def ev_def q_edges_def

theorem normalize_dispatch_witness:
  "(\<exists>r. normalize_iofq (iofq_events [[ev 4 0.5, ev 6 0.7], [ev 20 1.5], [ev 30 2.5]])
            (denominator_q [2, 4, 5] (Some [1, 1, 1])) = Inr r
        \<and> \<not> is_binned r \<and> cell_totals r = [5, 5, 6])
   \<and> (\<exists>r. normalize_iofq (iofq_events [[ev 4 0.5, ev 6 0.7], [ev 20 1.5], [ev 30 2.5]])
            (denominator_q [2, 4, 5] None) = Inr r
        \<and> map (map e_weight) (case da_data r of Binned f es \<Rightarrow> es | Dense xs vs \<Rightarrow> [])
            = [[2, 3], [5], [6]])
   \<and> normalize_iofq (iofq [10, 20, 30]) (denominator_q [2, 4, 5] None) = Inr (iofq [5, 5, 6])"
proof -
  let ?n = "iofq_events [[ev 4 0.5, ev 6 0.7], [ev 20 1.5], [ev 30 2.5]]"
  let ?dv = "denominator_q [2, 4, 5] (Some [1, 1, 1])"
  let ?d = "denominator_q [2, 4, 5] None"
  have b: "is_binned ?n" "\<not> is_binned (iofq [10, 20, 30])"
    by (simp_all add: is_binned_def example_defs)
  have v: "has_variances ?dv" "\<not> has_variances ?d"
    by (simp_all add: has_variances_def example_defs)
  have h: "hist_bins ?n = Inr (denominator_q [10, 20, 30] (Some [10, 20, 30]))"
    by (simp add: hist_bins_def bins_sum_def example_defs)
  have "normalize_iofq ?n ?dv
          = (case hist_bins ?n of Inl e \<Rightarrow> Inl e | Inr h \<Rightarrow> dense_op Div h ?dv)"
    using normalize_dispatch [of ?dv ?n] b v by blast
  also have "\<dots> = Inr (denominator_q [5, 5, 6] (Some [35 / 4, 45 / 16, 66 / 25]))"
    unfolding h
    by (simp add: example_defs dense_op_def coords_agree_def combine_def elementwise_def
          variances_or_zero_def merge_masks_def merge_coords_def)
  finally have 1: "\<exists>r. normalize_iofq ?n ?dv = Inr r \<and> \<not> is_binned r \<and> cell_totals r = [5, 5, 6]"
    by (simp add: is_binned_def cell_totals_def denominator_q_def)
  have "normalize_iofq ?n ?d = bins_div_lookup ?n ?d ''Q''"
    using normalize_dispatch [of ?d ?n] b v by blast
  also have "\<dots> = Inr (iofq_events
      [[\<lparr>e_weight = 2, e_variance = 1, e_coords = [(''Q'', 1 / 2)]\<rparr>,
        \<lparr>e_weight = 3, e_variance = 3 / 2, e_coords = [(''Q'', 7 / 10)]\<rparr>],
       [\<lparr>e_weight = 5, e_variance = 5 / 4, e_coords = [(''Q'', 3 / 2)]\<rparr>],
       [\<lparr>e_weight = 6, e_variance = 6 / 5, e_coords = [(''Q'', 5 / 2)]\<rparr>]])"
    by (simp add: bins_div_lookup_def lookup_row_def divide_event_def example_defs upt_rec)
  finally have 2: "\<exists>r. normalize_iofq ?n ?d = Inr r
        \<and> map (map e_weight) (case da_data r of Binned f es \<Rightarrow> es | Dense xs vs \<Rightarrow> [])
            = [[2, 3], [5], [6]]"
    by (simp add: iofq_events_def)
  have "normalize_iofq (iofq [10, 20, 30]) ?d = dense_op Div (iofq [10, 20, 30]) ?d"
    using normalize_dispatch [of ?d "iofq [10, 20, 30]"] b by blast
  also have "\<dots> = Inr (iofq [5, 5, 6])"
    by (simp add: example_defs dense_op_def coords_agree_def combine_def elementwise_def
          merge_masks_def merge_coords_def)
  finally show ?thesis using 1 2 by blast
qed

text \<open>Division by a variance-free quantity of ones.\<close>

lemma map2_div_ones: "map2 (/) xs (replicate (length xs) (1::real)) = xs"
  by (induction xs) auto

lemma variance_div_ones:
  "length vs = length xs \<Longrightarrow>
     map2 (op_variance Div) (zip xs vs) (replicate (length xs) (1, 0)) = vs"
  by (induction xs arbitrary: vs) (auto simp: length_Suc_conv)

lemma coords_agree_subset:
  assumes "distinct (map fst ca)" and "set cb \<subseteq> set ca"
  shows "coords_agree ca cb"
  unfolding coords_agree_def list_all_iff
proof (clarsimp split: option.splits)
  fix k v w assume "(k, v) \<in> set ca" "map_of cb k = Some w"
  then have "(k, w) \<in> set ca" using assms(2) by (auto dest: map_of_SomeD)
  with \<open>(k, v) \<in> set ca\<close> assms(1) show "v = w"
    by (meson eq_key_imp_eq_value)
qed

lemma merge_coords_subset: "set cb \<subseteq> set ca \<Longrightarrow> merge_coords ca cb = ca"
proof -
  assume "set cb \<subseteq> set ca"
  then have "filter (\<lambda>(k, v). map_of ca k = None) cb = []"
    by (auto simp: filter_empty_conv map_of_eq_None_iff intro: rev_image_eqI)
  then show ?thesis by (simp add: merge_coords_def)
qed

lemma merge_masks_none: "merge_masks ma [] = Inr ma"
  by (simp add: merge_masks_def list_all_iff split_beta)

text \<open>
  C7. A dense, well-formed numerator divided by a variance-free denominator of ones over
  the same bins (no mask, no coordinate the numerator lacks) comes back unchanged:
  values, variances, coordinates and masks.
\<close>

theorem normalize_by_ones:
  assumes "well_formed n" and "\<not> is_binned n" and "ones_over n d"
  shows "normalize_iofq n d = Inr n"
proof -
  from assms(2) obtain xs vxs where n: "da_data n = Dense xs vxs"
    by (cases "da_data n") (auto simp: is_binned_def)
  have len: "length xs = volume (da_sizes n)"
    and vlen: "\<And>vs. vxs = Some vs \<Longrightarrow> length vs = length xs"
    using assms(1) n by (auto simp: well_formed_def)
  have d: "da_data d = Dense (replicate (length xs) 1) None" "da_sizes d = da_sizes n"
    "da_masks d = []" "set (da_coords d) \<subseteq> set (da_coords n)"
    using assms(3) len by (auto simp: ones_over_def)
  have ca: "coords_agree (da_coords n) (da_coords d)"
    using assms(1) d(4) by (auto simp: well_formed_def intro: coords_agree_subset)
  have el: "elementwise Div (xs, vxs) (replicate (length xs) 1, None) = Inr (xs, vxs)"
    by (cases vxs)
       (auto simp: elementwise_def map2_div_ones variances_or_zero_def variance_div_ones
             dest: vlen)
  have "normalize_iofq n d = dense_op Div n d"
    using assms(2) by (simp add: normalize_iofq_def)
  also have "\<dots> = Inr \<lparr>da_sizes = da_sizes n, da_data = Dense xs vxs,
                         da_coords = da_coords n, da_masks = da_masks n\<rparr>"
    using n d ca el
    by (simp add: dense_op_def combine_same_dims merge_masks_none merge_coords_subset)
  also have "\<dots> = Inr n" using n by simp
  finally show ?thesis .
qed

theorem normalize_by_ones_witness:
  "well_formed (iofq [10, 20, 30]) \<and> \<not> is_binned (iofq [10, 20, 30])
   \<and> ones_over (iofq [10, 20, 30]) (denominator_q [1, 1, 1] None)
   \<and> normalize_iofq (iofq [10, 20, 30]) (denominator_q [1, 1, 1] None) = Inr (iofq [10, 20, 30])"
proof -
  have 1: "well_formed (iofq [10, 20, 30])"
    by (simp add: well_formed_def iofq_def volume_def)
  have 2: "\<not> is_binned (iofq [10, 20, 30])" by (simp add: is_binned_def iofq_def)
  have 3: "ones_over (iofq [10, 20, 30]) (denominator_q [1, 1, 1] None)"
    by (simp add: ones_over_def iofq_def denominator_q_def volume_def numeral_3_eq_3)
  from normalize_by_ones [OF 1 2 3] 1 2 3 show ?thesis by simp
qed

section \<open>Solid angle\<close>

lemma map2_nth:
  "length xs = n \<Longrightarrow> length ys = n \<Longrightarrow> map2 f xs ys = map (\<lambda>i. f (xs ! i) (ys ! i)) [0 ..< n]"
  by (auto simp: list_eq_iff_nth_eq)

lemma concat_replicate_single: "length xs = 1 \<Longrightarrow> concat (replicate n xs) = replicate n (hd xs)"
  by (cases xs) (auto simp: intro: nth_equalityI) 

lemma volume_Nil [simp]: "volume [] = 1" by (simp add: volume_def)

lemma hd0: "length xs = Suc 0 \<Longrightarrow> hd xs = xs ! 0" by (cases xs) auto

lemma combine_cells:
  assumes dims: "da = [] \<or> db = [] \<or> da = db"
    and va: "da \<noteq> db \<Longrightarrow> da = [] \<Longrightarrow> vxs = None"
    and vb: "da \<noteq> db \<Longrightarrow> db = [] \<Longrightarrow> vys = None"
    and la: "length xs = volume da" and lb: "length ys = volume db"
    and z: "f \<noteq> Div \<or> 0 \<notin> set ys"
  shows "\<exists>vs. combine f (da, xs, vxs) (db, ys, vys) =
           Inr (if da = [] then db else da,
                map (\<lambda>i. op_value f (cell da xs i) (cell db ys i))
                  [0 ..< volume (if da = [] then db else da)], vs)"
proof (cases "da = db")
  case True
  have "map2 (op_value f) xs ys = map (\<lambda>i. op_value f (cell da xs i) (cell db ys i)) [0 ..< volume da]"
    using la lb True by (auto simp: map2_nth [of _ "volume da"] cell_def hd0)
  then show ?thesis
    using True z by (auto simp: combine_def elementwise_def)
next
  case False
  show ?thesis
  proof (cases "db = []")
    case True
    with False have a: "da \<noteq> []" by simp
    have y: "concat (replicate (volume da) ys) = replicate (volume da) (hd ys)"
      using lb True by (simp add: concat_replicate_single)
    have z': "f \<noteq> Div \<or> 0 \<notin> set (replicate (volume da) (hd ys))"
      using z lb True by (cases ys) auto
    have "map2 (op_value f) xs (replicate (volume da) (hd ys))
            = map (\<lambda>i. op_value f (cell da xs i) (cell db ys i)) [0 ..< volume da]"
      using la a True by (auto simp: map2_nth [of _ "volume da"] cell_def)
    then show ?thesis
      using False True a vb z' y
      by (auto simp: combine_def spread_def elementwise_def simp del: set_replicate)
  next
    case b: False
    with False dims have a: "da = []" by simp
    have x: "concat (replicate (volume db) xs) = replicate (volume db) (hd xs)"
      using la a by (simp add: concat_replicate_single)
    have "map2 (op_value f) (replicate (volume db) (hd xs)) ys
            = map (\<lambda>i. op_value f (cell da xs i) (cell db ys i)) [0 ..< volume db]"
      using lb a b by (auto simp: map2_nth [of _ "volume db"] cell_def)
    then show ?thesis
      using False a b va z x
      by (auto simp: combine_def spread_def elementwise_def)
  qed
qed


lemma var_op_cells:
  assumes "v_dims a = [] \<or> v_dims b = [] \<or> v_dims a = v_dims b"
    and "v_dims a \<noteq> v_dims b \<Longrightarrow> v_dims a = [] \<Longrightarrow> v_variances a = None"
    and "v_dims a \<noteq> v_dims b \<Longrightarrow> v_dims b = [] \<Longrightarrow> v_variances b = None"
    and "shaped a" and "shaped b"
    and "f \<noteq> Div \<or> 0 \<notin> set (v_values b)"
  shows "\<exists>vs. var_op f a b =
           Inr \<lparr>v_dims = (if v_dims a = [] then v_dims b else v_dims a),
                v_values = map (\<lambda>i. op_value f (cell (v_dims a) (v_values a) i)
                                              (cell (v_dims b) (v_values b) i))
                             [0 ..< volume (if v_dims a = [] then v_dims b else v_dims a)],
                v_variances = vs\<rparr>"
proof -
  from combine_cells [OF assms(1-3) assms(4,5) [unfolded shaped_def] assms(6)]
  obtain vs where "combine f (v_dims a, v_values a, v_variances a)
                     (v_dims b, v_values b, v_variances b) =
           Inr (if v_dims a = [] then v_dims b else v_dims a,
                map (\<lambda>i. op_value f (cell (v_dims a) (v_values a) i)
                                     (cell (v_dims b) (v_values b) i))
                  [0 ..< volume (if v_dims a = [] then v_dims b else v_dims a)], vs)"
    by blast
  then show ?thesis by (simp add: var_op_def)
qed

lemma var_op_no_variances:
  "var_op f a b = Inr c \<Longrightarrow> v_variances a = None \<Longrightarrow> v_variances b = None
     \<Longrightarrow> v_variances c = None"
  by (auto simp: var_op_def combine_def elementwise_def spread_def
           split: sum.splits if_splits prod.splits)

lemma reduced_filter_coords:
  assumes "list_all (\<lambda>(k, c). dims_of (v_dims c) \<subseteq> D) cs"
  shows "filter (\<lambda>(k, c). dims_of (v_dims c) \<inter> (D - R) = {}) cs
           = filter (\<lambda>(k, c). dims_of (v_dims c) \<subseteq> R) cs"
  using assms by (intro filter_cong) (fastforce simp: list_all_iff)+

lemma reduced_filter_masks:
  assumes "list_all (\<lambda>(k, s, m). dims_of s \<subseteq> D) ms"
  shows "filter (\<lambda>(k, s, m). dims_of s \<inter> (D - R) = {}) ms
           = filter (\<lambda>(k, s, m). dims_of s \<subseteq> R) ms"
  using assms by (intro filter_cong) (fastforce simp: list_all_iff)+

text \<open>
  C8. With width and height given per pixel or as one scalar (without variances), and
  non-zero distances, the solid angle of pixel \<open>i\<close> is width * height / distance squared, over
  the dimensions of the distance. Of the coordinates and masks of the input exactly
  those are kept whose dimensions are all dimensions of the result.
\<close>

theorem solid_angle_formula:
  assumes w: "map_of (da_coords data) ''pixel_width'' = Some w"
    and h: "map_of (da_coords data) ''pixel_height'' = Some h"
    and l: "distance data = Inr l"
    and sh: "shaped w" "shaped h" "shaped l"
    and dw: "v_dims w = [] \<or> v_dims w = v_dims l"
    and dh: "v_dims h = [] \<or> v_dims h = v_dims l"
    and nv: "v_variances w = None" "v_variances h = None"
    and nz: "0 \<notin> set (v_values l)"
    and inv: "dims_within data"
  shows "\<exists>r vs. solid_angle_rectangular_approximation distance data = Inr r
           \<and> da_sizes r = v_dims l
           \<and> da_data r =
               Dense (map (\<lambda>i. cell (v_dims w) (v_values w) i * cell (v_dims h) (v_values h) i
                               / (v_values l ! i * v_values l ! i))
                        [0 ..< volume (v_dims l)]) vs
           \<and> da_coords r = filter (\<lambda>(k, c). dims_of (v_dims c) \<subseteq> dims_of (v_dims l))
                              (da_coords data)
           \<and> da_masks r = filter (\<lambda>(k, s, m). dims_of s \<subseteq> dims_of (v_dims l))
                             (da_masks data)"
proof -
  let ?pd = "v_dims l"
  let ?cw = "cell (v_dims w) (v_values w)" and ?ch = "cell (v_dims h) (v_values h)"
  let ?dwh = "if v_dims w = [] then v_dims h else v_dims w"
  obtain vwh where wh: "var_op Mul w h =
      Inr \<lparr>v_dims = ?dwh, v_values = map (\<lambda>i. ?cw i * ?ch i) [0 ..< volume ?dwh],
           v_variances = vwh\<rparr>" (is "_ = Inr ?wh")
    using var_op_cells [of w h Mul] dw dh nv sh by auto
  have vwh: "vwh = None"
    using var_op_no_variances [OF wh] nv by simp
  obtain vll where ll: "var_op Mul l l =
      Inr \<lparr>v_dims = ?pd, v_values = map (\<lambda>i. cell ?pd (v_values l) i * cell ?pd (v_values l) i)
                                      [0 ..< volume ?pd],
           v_variances = vll\<rparr>" (is "_ = Inr ?ll")
    using var_op_cells [of l l Mul] sh by auto
  have lc: "cell ?pd (v_values l) i = v_values l ! i" if "i < volume ?pd" for i
    using that sh(3) by (auto simp: cell_def shaped_def hd0)
  have llv: "v_values ?ll = map (\<lambda>i. v_values l ! i * v_values l ! i) [0 ..< volume ?pd]"
    by (simp add: lc)
  have nz': "0 \<notin> set (v_values ?ll)"
  proof -
    have "v_values l ! i \<noteq> 0" if "i < volume ?pd" for i
      using that nz sh(3) by (metis nth_mem shaped_def)
    then show ?thesis unfolding llv by auto
  qed
  have dwh: "?dwh = [] \<or> ?dwh = ?pd" using dw dh by auto
  have "\<exists>vs. var_op Div ?wh ?ll =
           Inr \<lparr>v_dims = (if v_dims ?wh = [] then v_dims ?ll else v_dims ?wh),
                v_values = map (\<lambda>i. op_value Div (cell (v_dims ?wh) (v_values ?wh) i)
                                              (cell (v_dims ?ll) (v_values ?ll) i))
                             [0 ..< volume (if v_dims ?wh = [] then v_dims ?ll else v_dims ?wh)],
                v_variances = vs\<rparr>"
    using dwh vwh nz' by (intro var_op_cells) (auto simp: shaped_def)
  moreover have rd: "(if v_dims ?wh = [] then v_dims ?ll else v_dims ?wh) = ?pd"
    using dwh by auto
  moreover have "map (\<lambda>i. op_value Div (cell (v_dims ?wh) (v_values ?wh) i)
                                        (cell (v_dims ?ll) (v_values ?ll) i)) [0 ..< volume ?pd]
      = map (\<lambda>i. ?cw i * ?ch i / (v_values l ! i * v_values l ! i)) [0 ..< volume ?pd]"
  proof (rule map_cong [OF refl])
    fix i assume "i \<in> set [0 ..< volume ?pd]"
    then have i: "i < volume ?pd" by simp
    have a: "cell (v_dims ?wh) (v_values ?wh) i = ?cw i * ?ch i"
    proof (cases "?dwh = []")
      case True
      then have "v_dims w = []" "v_dims h = []" by (auto split: if_splits)
      then show ?thesis by (simp add: cell_def)
    next
      case False
      with dwh have "?dwh = ?pd" by blast
      with False i show ?thesis by (simp add: cell_def)
    qed
    have b: "cell (v_dims ?ll) (v_values ?ll) i = v_values l ! i * v_values l ! i"
      using i sh(3) by (auto simp: cell_def lc shaped_def hd0)
    show "op_value Div (cell (v_dims ?wh) (v_values ?wh) i) (cell (v_dims ?ll) (v_values ?ll) i)
            = ?cw i * ?ch i / (v_values l ! i * v_values l ! i)"
      unfolding a b by simp
  qed
  ultimately obtain vs where om: "var_op Div ?wh ?ll =
      Inr \<lparr>v_dims = ?pd,
           v_values = map (\<lambda>i. ?cw i * ?ch i / (v_values l ! i * v_values l ! i))
                        [0 ..< volume ?pd],
           v_variances = vs\<rparr>"
    by auto
  have "solid_angle_rectangular_approximation distance data =
          Inr (rewrap_reduced_data data
                 \<lparr>v_dims = ?pd,
                  v_values = map (\<lambda>i. ?cw i * ?ch i / (v_values l ! i * v_values l ! i))
                               [0 ..< volume ?pd],
                  v_variances = vs\<rparr>
                 (dims_of (da_sizes data) - dims_of ?pd))"
    using w h l wh ll om by (simp add: solid_angle_rectangular_approximation_def)
  then show ?thesis
    using inv
    by (simp add: rewrap_reduced_data_def dims_within_def
          reduced_filter_coords reduced_filter_masks)
qed


theorem solid_angle_formula_witness:
  "\<exists>vs. solid_angle_rectangular_approximation detector_L2 detector =
      Inr \<lparr>da_sizes = [(''pixel'', 2)], da_data = Dense [6 / 25, 2 / 25] vs,
           da_coords = [(''pixel_width'', uniform 2), (''pixel_height'', per_pixel [3, 4]),
                        (''pixel_id'', per_pixel [7, 8])],
           da_masks = [(''bad_pixel'', [(''pixel'', 2)], [False, True])]\<rparr>"
proof -
  have w: "map_of (da_coords detector) ''pixel_width'' = Some (uniform 2)"
    and h: "map_of (da_coords detector) ''pixel_height'' = Some (per_pixel [3, 4])"
    by (simp_all add: detector_def)
  have l: "detector_L2 detector = Inr (per_pixel [5, 10])"
    by (simp add: detector_L2_def)
  have sh: "shaped (uniform 2)" "shaped (per_pixel [3, 4])" "shaped (per_pixel [5, 10])"
    by (simp_all add: shaped_def uniform_def per_pixel_def volume_def)
  have d: "v_dims (uniform 2) = [] \<or> v_dims (uniform 2) = v_dims (per_pixel [5, 10])"
    "v_dims (per_pixel [3, 4]) = [] \<or> v_dims (per_pixel [3, 4]) = v_dims (per_pixel [5, 10])"
    by (simp_all add: uniform_def per_pixel_def)
  have nv: "v_variances (uniform 2) = None" "v_variances (per_pixel [3, 4]) = None"
    by (simp_all add: uniform_def per_pixel_def)
  have nz: "0 \<notin> set (v_values (per_pixel [5, 10]))"
    by (simp add: per_pixel_def)
  have inv: "dims_within detector"
    by (simp add: dims_within_def detector_def dims_of_def uniform_def per_pixel_def)
  from solid_angle_formula [where distance = detector_L2 and data = detector, OF w h l sh d nv nz inv]
  obtain r vs where r: "solid_angle_rectangular_approximation detector_L2 detector = Inr r"
    "da_sizes r = v_dims (per_pixel [5, 10])"
    "da_data r =
       Dense (map (\<lambda>i. cell (v_dims (uniform 2)) (v_values (uniform 2)) i
                         * cell (v_dims (per_pixel [3, 4])) (v_values (per_pixel [3, 4])) i
                         / (v_values (per_pixel [5, 10]) ! i * v_values (per_pixel [5, 10]) ! i))
                [0 ..< volume (v_dims (per_pixel [5, 10]))]) vs"
    "da_coords r = filter (\<lambda>(k, c). dims_of (v_dims c) \<subseteq> dims_of (v_dims (per_pixel [5, 10])))
                     (da_coords detector)"
    "da_masks r = filter (\<lambda>(k, s, m). dims_of s \<subseteq> dims_of (v_dims (per_pixel [5, 10])))
                    (da_masks detector)"
    by blast
  have "r = \<lparr>da_sizes = [(''pixel'', 2)], da_data = Dense [6 / 25, 2 / 25] vs,
           da_coords = [(''pixel_width'', uniform 2), (''pixel_height'', per_pixel [3, 4]),
                        (''pixel_id'', per_pixel [7, 8])],
           da_masks = [(''bad_pixel'', [(''pixel'', 2)], [False, True])]\<rparr>"
    using r(2-5)
    by (cases r)
       (simp add: per_pixel_def uniform_def cell_def volume_def detector_def dims_of_def
          upt_rec)
  with r(1) show ?thesis by blast
qed

section \<open>Direct-beam resampling\<close>

lemma length_midpoints: "length (midpoints xs) = length xs - 1"
  by (induction xs rule: midpoints.induct) auto

lemma traverse_total:
  "(\<And>x. x \<in> set xs \<Longrightarrow> \<exists>y. f x = Inr y) \<Longrightarrow>
     \<exists>ys. traverse f xs = Inr ys \<and> list_all2 (\<lambda>x y. f x = Inr y) xs ys"
proof (induction xs)
  case Nil
  then show ?case by simp
next
  case (Cons a xs)
  from Cons.prems obtain y where y: "f a = Inr y" by auto
  from Cons obtain ys where "traverse f xs = Inr ys" "list_all2 (\<lambda>x y. f x = Inr y) xs ys"
    by auto
  with y show ?case by auto
qed

lemma linear_total:
  "sorted_wrt (\<lambda>p q. fst p < fst q) ps \<Longrightarrow> 2 \<le> length ps \<Longrightarrow> \<exists>y. interpolate ps x = Inr y"
proof (induction ps x rule: interpolate.induct)
  case (1 x0 y0 x1 y1 ps x)
  then show ?case by (cases ps) auto
qed auto

lemma linear_first:
  "2 \<le> length ps \<Longrightarrow> fst (ps ! 0) \<noteq> fst (ps ! 1) \<Longrightarrow> x \<le> fst (ps ! 1)
     \<Longrightarrow> interpolate ps x = Inr (line (ps ! 0) (ps ! 1) x)"
  by (cases "(ps, x)" rule: interpolate.cases) (auto simp: line_def)

lemma linear_last:
  "sorted_wrt (\<lambda>p q. fst p < fst q) ps \<Longrightarrow> 2 \<le> length ps
     \<Longrightarrow> fst (ps ! (length ps - 2)) < x
     \<Longrightarrow> interpolate ps x = Inr (line (ps ! (length ps - 2)) (ps ! (length ps - 1)) x)"
proof (induction ps x rule: interpolate.induct)
  case (1 x0 y0 x1 y1 ps x)
  show ?case
  proof (cases ps)
    case Nil
    with 1 show ?thesis by (auto simp: line_def)
  next
    case (Cons p ps')
    have lt: "x1 < x"
    proof -
      have "fst (((x0, y0) # (x1, y1) # ps) ! i) \<le> fst (((x0, y0) # (x1, y1) # ps) ! j)"
        if "i \<le> j" "j < length ((x0, y0) # (x1, y1) # ps)" for i j
        using "1.prems"(1) that
        by (cases "i = j") (auto simp: sorted_wrt_iff_nth_less less_imp_le)
      from this [of 1 "length ((x0, y0) # (x1, y1) # ps) - 2"] Cons
      have "x1 \<le> fst (((x0, y0) # (x1, y1) # ps) ! (length ((x0, y0) # (x1, y1) # ps) - 2))"
        by simp
      with "1.prems"(3) show ?thesis by simp
    qed
    have "interpolate ((x1, y1) # ps) x
            = Inr (line (((x1, y1) # ps) ! (length ((x1, y1) # ps) - 2))
                        (((x1, y1) # ps) ! (length ((x1, y1) # ps) - 1)) x)"
      using "1.prems" Cons lt by (intro "1.IH") auto
    then show ?thesis using lt Cons by simp
  qed
qed auto

lemma distinct_map_insort_key:
  "distinct (map f (insort_key f x xs)) = (f x \<notin> f ` set xs \<and> distinct (map f xs))"
  by (induction xs) (auto simp: set_insort_key)

lemma distinct_map_sort_key:
  "distinct (map f (sort_key f xs)) = distinct (map f xs)"
  by (induction xs) (auto simp: distinct_map_insort_key)

lemma strictly_sorted_sort_key:
  fixes l :: "(real \<times> real) list"
  assumes "distinct (map fst l)"
  shows "sorted_wrt (\<lambda>p q. fst p < fst q) (sort_key fst l)"
proof -
  have "sorted (map fst (sort_key fst l))" by (rule sorted_sort_key)
  moreover have "distinct (map fst (sort_key fst l))"
    using assms by (simp add: distinct_map_sort_key)
  ultimately have "sorted_wrt (<) (map fst (sort_key fst l))"
    by (simp add: strict_sorted_iff)
  then show ?thesis by (simp add: sorted_wrt_map)
qed

lemma point_curve_points:
  assumes "point_curve a c"
  shows "sorted_wrt (\<lambda>p q. fst p < fst q) (curve_points a c)"
    and "2 \<le> length (curve_points a c)"
proof -
  from assms obtain ys vs where d: "da_data a = Dense ys vs"
    "length (v_values c) = length ys" "distinct (v_values c)" "2 \<le> length (v_values c)"
    by (cases "da_data a") (auto simp: point_curve_def)
  then have "distinct (map fst (zip (v_values c) ys))" by simp
  then show "sorted_wrt (\<lambda>p q. fst p < fst q) (curve_points a c)"
    using d(1) by (simp add: curve_points_def cell_totals_def strictly_sorted_sort_key)
  show "2 \<le> length (curve_points a c)"
    using d by (simp add: curve_points_def cell_totals_def)
qed

lemma interp1d_midpoints_coords:
  "interp1d_midpoints a d xnew = Inr r \<Longrightarrow> da_coords r = [(d, xnew)]"
  by (auto simp: interp1d_midpoints_def split: content.splits if_splits option.splits sum.splits)

lemma resample_identity:
  "map_of (da_coords a) ''wavelength'' = Some bins \<Longrightarrow> resample_direct_beam a bins = ([], Inr a)"
  by (simp add: resample_direct_beam_def)

lemma resample_idempotent:
  assumes "resample_direct_beam a bins = (lg, Inr r)"
  shows "resample_direct_beam r bins = ([], Inr r)"
proof -
  from assms obtain c where c: "map_of (da_coords a) ''wavelength'' = Some c"
    by (auto simp: resample_direct_beam_def split: option.splits)
  show ?thesis
  proof (cases "c = bins")
    case True
    with assms c have "r = a" by (simp add: resample_direct_beam_def)
    with c True show ?thesis by (simp add: resample_identity)
  next
    case False
    with assms c have "interp1d_midpoints (values_of a) ''wavelength'' bins = Inr r"
      by (simp add: resample_direct_beam_def)
    then have "da_coords r = [(''wavelength'', bins)]" by (rule interp1d_midpoints_coords)
    then show ?thesis by (simp add: resample_identity)
  qed
qed

lemma resample_interpolates:
  assumes pc: "point_curve a c" and ne: "c \<noteq> bins"
    and bd: "map fst (v_dims bins) = [''wavelength'']"
  shows "\<exists>ynew. resample_direct_beam a bins =
            (if has_variances a then [variance_warning] else [],
             Inr \<lparr>da_sizes = [(''wavelength'', length (v_values bins) - 1)],
                  da_data = Dense ynew None,
                  da_coords = [(''wavelength'', bins)], da_masks = []\<rparr>)
          \<and> list_all2 (\<lambda>m y. interpolate (curve_points a c) m = Inr y)
                (midpoints (v_values bins)) ynew"
proof -
  from pc obtain ys vs where d: "da_data a = Dense ys vs"
    "da_sizes a = [(''wavelength'', length ys)]" "length (v_values c) = length ys"
    "2 \<le> length (v_values c)" "da_masks a = []"
    "map_of (da_coords a) ''wavelength'' = Some c"
    by (cases "da_data a") (auto simp: point_curve_def)
  have "\<exists>y. interpolate (curve_points a c) m = Inr y" for m
    using point_curve_points [OF pc] by (rule linear_total)
  then obtain ynew where t: "traverse (interpolate (curve_points a c)) (midpoints (v_values bins)) = Inr ynew"
    and l: "list_all2 (\<lambda>m y. interpolate (curve_points a c) m = Inr y) (midpoints (v_values bins)) ynew"
    using traverse_total [of "midpoints (v_values bins)" "interpolate (curve_points a c)"] by blast
  have len: "length ynew = length (v_values bins) - 1"
    using list_all2_lengthD [OF l] by (simp add: length_midpoints)
  have cp: "curve_points a c = sort_key fst (zip (v_values c) ys)"
    using d(1) by (simp add: curve_points_def cell_totals_def)
  have "interp1d_midpoints (values_of a) ''wavelength'' bins =
          Inr \<lparr>da_sizes = [(''wavelength'', length ynew)], da_data = Dense ynew None,
               da_coords = [(''wavelength'', bins)], da_masks = []\<rparr>"
    using d bd t unfolding cp
    by (simp add: interp1d_midpoints_def values_of_def)
  then show ?thesis
    using d(6) ne l len by (auto simp: resample_direct_beam_def)
qed


text \<open>
  C4. A curve whose wavelength coordinate is identical to the target bins is returned
  as it is, values and variances included, and nothing is logged; so resampling the
  result of a resampling onto the same bins changes nothing. Otherwise, for a curve given
  at distinct wavelengths, the result has no variances (a warning is logged if the curve
  had some), carries the target bins, and its values are those of the piecewise linear
  interpolant at the midpoints of the bins. The interpolant does not fail outside the
  wavelengths of the curve: up to the second point it is the line through the first two
  points, after the last but one the line through the last two.
\<close>

theorem resample_direct_beam_cases:
  "(map_of (da_coords a) ''wavelength'' = Some bins \<longrightarrow>
      resample_direct_beam a bins = ([], Inr a))
   \<and> (\<forall>lg r. resample_direct_beam a bins = (lg, Inr r) \<longrightarrow>
         resample_direct_beam r bins = ([], Inr r))
   \<and> (\<forall>c. point_curve a c \<and> c \<noteq> bins \<and> map fst (v_dims bins) = [''wavelength''] \<longrightarrow>
         (\<exists>ynew. resample_direct_beam a bins =
            (if has_variances a then [variance_warning] else [],
             Inr \<lparr>da_sizes = [(''wavelength'', length (v_values bins) - 1)],
                  da_data = Dense ynew None,
                  da_coords = [(''wavelength'', bins)], da_masks = []\<rparr>)
            \<and> list_all2 (\<lambda>m y. interpolate (curve_points a c) m = Inr y)
                  (midpoints (v_values bins)) ynew)
         \<and> (\<forall>x. x \<le> fst (curve_points a c ! 1) \<longrightarrow>
               interpolate (curve_points a c) x
                 = Inr (line (curve_points a c ! 0) (curve_points a c ! 1) x))
         \<and> (\<forall>x. fst (curve_points a c ! (length (curve_points a c) - 2)) < x \<longrightarrow>
               interpolate (curve_points a c) x
                 = Inr (line (curve_points a c ! (length (curve_points a c) - 2))
                             (curve_points a c ! (length (curve_points a c) - 1)) x)))"
proof (intro conjI allI impI)
  assume "map_of (da_coords a) ''wavelength'' = Some bins"
  then show "resample_direct_beam a bins = ([], Inr a)" by (rule resample_identity)
next
  fix lg r assume "resample_direct_beam a bins = (lg, Inr r)"
  then show "resample_direct_beam r bins = ([], Inr r)" by (rule resample_idempotent)
next
  fix c assume "point_curve a c \<and> c \<noteq> bins \<and> map fst (v_dims bins) = [''wavelength'']"
  then show "\<exists>ynew. resample_direct_beam a bins =
            (if has_variances a then [variance_warning] else [],
             Inr \<lparr>da_sizes = [(''wavelength'', length (v_values bins) - 1)],
                  da_data = Dense ynew None,
                  da_coords = [(''wavelength'', bins)], da_masks = []\<rparr>)
            \<and> list_all2 (\<lambda>m y. interpolate (curve_points a c) m = Inr y)
                  (midpoints (v_values bins)) ynew"
    by (intro resample_interpolates) auto
next
  fix c x
  assume h: "point_curve a c \<and> c \<noteq> bins \<and> map fst (v_dims bins) = [''wavelength'']"
    and x: "x \<le> fst (curve_points a c ! 1)"
  from h have s: "sorted_wrt (\<lambda>p q. fst p < fst q) (curve_points a c)"
    and n: "2 \<le> length (curve_points a c)"
    by (auto dest: point_curve_points)
  from s n have "fst (curve_points a c ! 0) < fst (curve_points a c ! 1)"
    by (auto simp: sorted_wrt_iff_nth_less)
  with n x show "interpolate (curve_points a c) x
                 = Inr (line (curve_points a c ! 0) (curve_points a c ! 1) x)"
    by (intro linear_first) auto
next
  fix c x
  assume h: "point_curve a c \<and> c \<noteq> bins \<and> map fst (v_dims bins) = [''wavelength'']"
    and x: "fst (curve_points a c ! (length (curve_points a c) - 2)) < x"
  from h have s: "sorted_wrt (\<lambda>p q. fst p < fst q) (curve_points a c)"
    and n: "2 \<le> length (curve_points a c)"
    by (auto dest: point_curve_points)
  then show "interpolate (curve_points a c) x
                 = Inr (line (curve_points a c ! (length (curve_points a c) - 2))
                             (curve_points a c ! (length (curve_points a c) - 1)) x)"
    using x by (rule linear_last)
qed

theorem resample_direct_beam_cases_witness:
  "resample_direct_beam (direct_beam (Some [1, 1, 1]))
      \<lparr>v_dims = [(''wavelength'', 3)], v_values = [4, 8, 12], v_variances = None\<rparr>
     = ([], Inr (direct_beam (Some [1, 1, 1])))
   \<and> resample_direct_beam (direct_beam (Some [1, 1, 1])) wavelength_edges
     = ([variance_warning],
        Inr \<lparr>da_sizes = [(''wavelength'', 2)], da_data = Dense [55 / 4, 85 / 2] None,
             da_coords = [(''wavelength'', wavelength_edges)], da_masks = []\<rparr>)
   \<and> resample_direct_beam
        \<lparr>da_sizes = [(''wavelength'', 2)], da_data = Dense [55 / 4, 85 / 2] None,
         da_coords = [(''wavelength'', wavelength_edges)], da_masks = []\<rparr> wavelength_edges
     = ([], Inr \<lparr>da_sizes = [(''wavelength'', 2)], da_data = Dense [55 / 4, 85 / 2] None,
                 da_coords = [(''wavelength'', wavelength_edges)], da_masks = []\<rparr>)
   \<and> interpolate (curve_points (direct_beam (Some [1, 1, 1]))
               \<lparr>v_dims = [(''wavelength'', 3)], v_values = [4, 8, 12], v_variances = None\<rparr>)
        (25 / 2) = Inr (line (8, 20) (12, 40) (25 / 2))"
proof -
  let ?a = "direct_beam (Some [1, 1, 1])"
  let ?c = "\<lparr>v_dims = [(''wavelength'', 3)], v_values = [4, 8, 12], v_variances = None\<rparr>"
  let ?b = wavelength_edges
  note rc = resample_direct_beam_cases
  have c: "map_of (da_coords ?a) ''wavelength'' = Some ?c" by (simp add: direct_beam_def)
  have 1: "resample_direct_beam ?a ?c = ([], Inr ?a)"
    using rc [of ?a ?c] c by blast
  have pc: "point_curve ?a ?c \<and> ?c \<noteq> ?b \<and> map fst (v_dims ?b) = [''wavelength'']"
    by (simp add: point_curve_def direct_beam_def wavelength_edges_def)
  have cp: "curve_points ?a ?c = [(4, 10), (8, 20), (12, 40)]"
    by (simp add: curve_points_def cell_totals_def direct_beam_def)
  have hv: "has_variances ?a" by (simp add: has_variances_def direct_beam_def)
  note ip = rc [of ?a ?b, THEN conjunct2, THEN conjunct2, rule_format, OF pc]
  from ip [THEN conjunct1] obtain ynew where
    r: "resample_direct_beam ?a ?b =
            (if has_variances ?a then [variance_warning] else [],
             Inr \<lparr>da_sizes = [(''wavelength'', length (v_values ?b) - 1)],
                  da_data = Dense ynew None,
                  da_coords = [(''wavelength'', ?b)], da_masks = []\<rparr>)"
    and l: "list_all2 (\<lambda>m y. interpolate (curve_points ?a ?c) m = Inr y)
                  (midpoints (v_values ?b)) ynew"
    by blast
  from l have "ynew = [55 / 4, 85 / 2]"
    unfolding cp by (auto simp: wavelength_edges_def list_all2_Cons1)
  with r hv have 2: "resample_direct_beam ?a ?b
     = ([variance_warning],
        Inr \<lparr>da_sizes = [(''wavelength'', 2)], da_data = Dense [55 / 4, 85 / 2] None,
             da_coords = [(''wavelength'', ?b)], da_masks = []\<rparr>)"
    by (simp add: wavelength_edges_def)
  have 3: "resample_direct_beam
        \<lparr>da_sizes = [(''wavelength'', 2)], da_data = Dense [55 / 4, 85 / 2] None,
         da_coords = [(''wavelength'', ?b)], da_masks = []\<rparr> ?b
     = ([], Inr \<lparr>da_sizes = [(''wavelength'', 2)], da_data = Dense [55 / 4, 85 / 2] None,
                 da_coords = [(''wavelength'', ?b)], da_masks = []\<rparr>)"
    using rc [of ?a ?b] 2 by blast
  have "fst (curve_points ?a ?c ! (length (curve_points ?a ?c) - 2)) < 25 / 2"
    unfolding cp by simp
  with ip [THEN conjunct2, THEN conjunct2]
  have "interpolate (curve_points ?a ?c) (25 / 2)
          = Inr (line (curve_points ?a ?c ! (length (curve_points ?a ?c) - 2))
                      (curve_points ?a ?c ! (length (curve_points ?a ?c) - 1)) (25 / 2))"
    by blast
  then have 4: "interpolate (curve_points ?a ?c) (25 / 2) = Inr (line (8, 20) (12, 40) (25 / 2))"
    unfolding cp by simp
  from 1 2 3 4 show ?thesis by blast
qed

section \<open>Monitor preprocessing\<close>












section \<open>Merging spectra\<close>

lemma volume_Cons [simp]: "volume ((d, n) # ds) = n * volume ds"
  by (simp add: volume_def)

lemma length_chunk:
  "length cs = n * k \<Longrightarrow> c \<in> set (chunks k n cs) \<Longrightarrow> length c = k"
proof -
  assume l: "length cs = n * k" and "c \<in> set (chunks k n cs)"
  then obtain r where r: "r < n" "c = take k (drop (r * k) cs)"
    by (auto simp: chunks_def)
  have "r * k + k \<le> n * k"
    using r(1) by (metis Suc_leI mult_Suc mult_le_mono1 add.commute)
  then show ?thesis using r l by simp
qed

lemma length_foldr_append:
  "(\<And>p. p \<in> set parts \<Longrightarrow> length p = m) \<Longrightarrow>
     length (foldr (map2 (@)) parts (replicate m [])) = m"
  by (induction parts) auto

lemma length_concat_uniform:
  "(\<And>p. p \<in> set parts \<Longrightarrow> length p = m) \<Longrightarrow> length (concat parts) = length parts * m"
  by (induction parts) auto

lemma length_gather:
  "length cs = volume ds \<Longrightarrow>
     length (gather ds S cs) = volume (filter (\<lambda>(d, n). d \<notin> S) ds)"
proof (induction ds S cs rule: gather.induct)
  case (1 S cs)
  then show ?case by simp
next
  case (2 d n ds S cs)
  let ?m = "volume (filter (\<lambda>(d, n). d \<notin> S) ds)"
  have parts: "length p = ?m" if "p \<in> set (map (gather ds S) (chunks (volume ds) n cs))" for p
  proof -
    from that obtain c where c: "c \<in> set (chunks (volume ds) n cs)" "p = gather ds S c"
      by auto
    then have "length c = volume ds" using "2.prems" by (auto intro: length_chunk)
    with c "2.IH" show ?thesis by simp
  qed
  show ?case
  proof (cases "d \<in> S")
    case True
    have "length (foldr (map2 (@)) (map (gather ds S) (chunks (volume ds) n cs))
            (replicate ?m [])) = ?m"
      by (rule length_foldr_append) (rule parts)
    with True show ?thesis by (simp add: Let_def)
  next
    case False
    have "length (concat (map (gather ds S) (chunks (volume ds) n cs)))
            = length (map (gather ds S) (chunks (volume ds) n cs)) * ?m"
      by (rule length_concat_uniform) (rule parts)
    with False show ?thesis by (simp add: Let_def chunks_def)
  qed
qed

lemma collapse_count:
  "collapse v keep = Inr rs \<Longrightarrow> shaped v \<Longrightarrow>
     length rs = volume (filter (\<lambda>(d, n). d \<noteq> keep) (v_dims v))"
  by (auto simp: collapse_def shaped_def length_gather split: if_splits)

lemma squeeze_sizes [simp]: "da_sizes (squeeze a) = filter (\<lambda>(d, n). n \<noteq> 1) (da_sizes a)"
  by (simp add: squeeze_def)

lemma squeeze_data [simp]: "da_data (squeeze a) = da_data a"
  by (simp add: squeeze_def)

lemma merge_spectra_squeezed:
  "merge_spectra pick hs data qb bands fd = Inr r \<Longrightarrow> \<exists>out. r = squeeze out"
  by (auto simp: merge_spectra_def Let_def split: sum.splits option.splits if_splits)

lemma bin_events_sizes:
  "bin_events q d r i = Inr b \<Longrightarrow>
     da_sizes b = da_sizes q @ [(d, length r - 1)] \<and> d \<notin> dims_of (da_sizes q)"
  by (auto simp: bin_events_def split: content.splits if_splits)

lemma append_along_sizes:
  "append_along d a b = Inr r \<Longrightarrow>
     \<exists>k. da_sizes a = (d, k) # da_sizes b \<and> d \<notin> dims_of (da_sizes b)
        \<and> da_sizes r = (d, Suc k) # da_sizes b"
  by (auto simp: append_along_def split: list.splits if_splits sum.splits)

lemma concat_all_sizes:
  "concat_all d acc bs = Inr r \<Longrightarrow> da_sizes acc = (d, k) # s \<Longrightarrow>
     da_sizes r = (d, k + length bs) # s"
proof (induction bs arbitrary: acc k)
  case Nil
  then show ?case by simp
next
  case (Cons b bs)
  from Cons.prems obtain acc' where a: "append_along d acc b = Inr acc'"
    and c: "concat_all d acc' bs = Inr r"
    by (auto split: sum.splits)
  from append_along_sizes [OF a] Cons.prems(2) have "da_sizes acc' = (d, Suc k) # s" by auto
  from Cons.IH [OF c this] show ?case by simp
qed

lemma concat_list_sizes:
  "concat_list d xs = Inr r \<Longrightarrow>
     \<exists>s. da_sizes r = (d, length xs) # s \<and> d \<notin> dims_of s"
proof -
  assume h: "concat_list d xs = Inr r"
  then obtain a bs where xs: "xs = a # bs" and nd: "d \<notin> dims_of (da_sizes a)"
    and c: "concat_all d (expand d a) bs = Inr r"
    by (auto simp: concat_list_def split: list.splits if_splits)
  have "da_sizes (expand d a) = (d, 1) # da_sizes a" by (simp add: expand_def)
  from concat_all_sizes [OF c this] xs nd show ?thesis by auto
qed

lemma dense_bands_length:
  "dense_bands hs data edges S ranges = Inr bs \<Longrightarrow> length bs = length ranges"
  by (induction ranges arbitrary: bs) (auto split: list.splits sum.splits)


lemma events_bands_sizes_some:
  "events_bands b q (Some out) ranges = Inr (Some r) \<Longrightarrow> da_sizes out = (b, k) # s \<Longrightarrow>
     da_sizes r = (b, k + length ranges) # s"
proof (induction ranges arbitrary: out k)
  case Nil
  then show ?case by simp
next
  case (Cons wr ranges)
  from Cons.prems(1) obtain bn out' where bn: "bin_events q ''wavelength'' wr False = Inr bn"
    and c: "concat2 b out (squeeze bn) = Inr out'"
    and rest: "events_bands b q (Some out') ranges = Inr (Some r)"
    by (auto simp: Let_def split: sum.splits)
  have "b \<in> dims_of (da_sizes out)" using Cons.prems(2) by (simp add: dims_of_def)
  with c have "append_along b out (squeeze bn) = Inr out'" by (simp add: concat2_def)
  from append_along_sizes [OF this] Cons.prems(2)
  have "da_sizes out' = (b, Suc k) # s" by auto
  from Cons.IH [OF rest this] show ?case by simp
qed

lemma squeezed_bin_dims:
  assumes "bin_events q w r1 i1 = Inr b1" and "bin_events q w r2 i2 = Inr b2" and "d \<noteq> w"
  shows "d \<in> dims_of (da_sizes (squeeze b1)) \<longleftrightarrow> d \<in> dims_of (da_sizes (squeeze b2))"
  using bin_events_sizes [OF assms(1)] bin_events_sizes [OF assms(2)] assms(3)
  by (auto simp: dims_of_def)

lemma events_bands_sizes_none:
  assumes "events_bands b q None ranges = Inr (Some r)" and "2 \<le> length ranges"
    and "b \<noteq> ''wavelength''"
  shows "\<exists>s. da_sizes r = (b, length ranges) # s"
proof -
  from assms(2) obtain r1 r2 rest where ranges: "ranges = r1 # r2 # rest"
    by (cases ranges; cases "tl ranges") auto
  from assms(1) ranges obtain b1 where b1: "bin_events q ''wavelength'' r1 False = Inr b1"
    and e1: "events_bands b q (Some (squeeze b1)) (r2 # rest) = Inr (Some r)"
    by (auto simp: Let_def split: sum.splits)
  from e1 obtain b2 out where b2: "bin_events q ''wavelength'' r2 False = Inr b2"
    and c: "concat2 b (squeeze b1) (squeeze b2) = Inr out"
    and e2: "events_bands b q (Some out) rest = Inr (Some r)"
    by (auto simp: Let_def split: sum.splits)
  have same: "b \<in> dims_of (da_sizes (squeeze b1)) \<longleftrightarrow> b \<in> dims_of (da_sizes (squeeze b2))"
    using b1 b2 assms(3) by (rule squeezed_bin_dims)
  have "da_sizes out = (b, 2) # da_sizes (squeeze b2)"
  proof (cases "b \<in> dims_of (da_sizes (squeeze b1))")
    case True
    with c have "append_along b (squeeze b1) (squeeze b2) = Inr out" by (simp add: concat2_def)
    from append_along_sizes [OF this] same True show ?thesis by blast
  next
    case False
    with c have "append_along b (expand b (squeeze b1)) (squeeze b2) = Inr out"
      by (simp add: concat2_def)
    from append_along_sizes [OF this] show ?thesis by (auto simp: expand_def)
  qed
  from events_bands_sizes_some [OF e2 this] ranges show ?thesis by simp
qed

lemma events_bands_single:
  "events_bands b q None [wr] = Inr (Some r) \<Longrightarrow>
     \<exists>bn. bin_events q ''wavelength'' wr False = Inr bn \<and> r = squeeze bn"
  by (auto simp: Let_def split: sum.splits)

lemma bin_by_sizes:
  "bin_by a spec = Inr q \<Longrightarrow> \<exists>n. da_sizes q = da_sizes a @ [(fst spec, n)]"
  by (cases spec)
     (auto simp: bin_by_def Let_def split: sum.splits content.splits if_splits
           dest!: bin_events_sizes)

lemma bins_concat_sizes:
  "bins_concat a S = Inr q \<Longrightarrow> da_sizes q = filter (\<lambda>(d, n). d \<notin> S) (da_sizes a)"
  by (auto simp: bins_concat_def Let_def split: content.splits)

lemma map_sum_Some_Inr [simp]:
  "map_sum id Some x = Inr y \<longleftrightarrow> (\<exists>z. x = Inr z \<and> y = Some z)"
  by (cases x) auto

text \<open>What a successful merge with bands went through, on either path.\<close>

lemma merge_spectra_events_steps:
  assumes "merge_spectra pick hs data qb (Some v) fd = Inr r" and "is_binned data"
  shows "\<exists>v' b ranges q_all spec q out.
           (if length (v_dims v) = 1 then fold_band v else Inr v) = Inr v'
           \<and> band_dimension pick v' = Inr b \<and> collapse v' ''wavelength'' = Inr ranges
           \<and> bins_concat data (dims_of (da_sizes data)
                 - set (case fd of None \<Rightarrow> [''Q''] | Some f \<Rightarrow> f)) = Inr q_all
           \<and> to_q_bins qb = Inr spec \<and> bin_by q_all spec = Inr q
           \<and> events_bands b q None ranges = Inr (Some out) \<and> r = squeeze out"
  using assms
  by (auto simp: merge_spectra_def events_merge_spectra_def Let_def
           split: sum.splits option.splits if_splits)

lemma merge_spectra_dense_steps:
  assumes "merge_spectra pick hs data qb (Some v) fd = Inr r" and "\<not> is_binned data"
  shows "\<exists>v' b ranges spec bs out.
           (if length (v_dims v) = 1 then fold_band v else Inr v) = Inr v'
           \<and> band_dimension pick v' = Inr b \<and> collapse v' ''wavelength'' = Inr ranges
           \<and> to_q_bins qb = Inr spec
           \<and> dense_bands hs data spec
                 (dims_of (da_sizes data) - set (case fd of None \<Rightarrow> [''Q''] | Some f \<Rightarrow> f))
                 ranges = Inr bs
           \<and> concat_list b bs = Inr out \<and> r = squeeze out"
  using assms
  by (auto simp: merge_spectra_def dense_merge_spectra_def Let_def
           split: sum.splits option.splits if_splits)


lemma filter_map_fst:
  "filter P (map fst xs) = map fst (filter (\<lambda>(d, m). P d) xs)"
  by (induction xs) auto

lemma band_layout_facts:
  assumes l: "band_layout v b n" and sh: "shaped v" and p: "pick [b] = b"
    and f: "(if length (v_dims v) = 1 then fold_band v else Inr v) = Inr v'"
  shows "band_dimension pick v' = Inr b"
    and "collapse v' ''wavelength'' = Inr rs \<Longrightarrow> length rs = n"
    and "b \<noteq> ''wavelength''"
proof -
  have "band_dimension pick v' = Inr b \<and> shaped v'
          \<and> volume (filter (\<lambda>(d, m). d \<noteq> ''wavelength'') (v_dims v')) = n
          \<and> b \<noteq> ''wavelength''"
  proof (cases "length (v_dims v) = 1")
    case True
    with l obtain k where d: "v_dims v = [(''wavelength'', k)]" and b: "b = ''band''" "n = 1"
      by (cases "v_dims v") (auto simp: band_layout_def)
    with f True have v': "v' = v\<lparr>v_dims := [(''band'', 1), (''wavelength'', k)]\<rparr>"
      by (simp add: fold_band_def)
    show ?thesis
      using sh d b p unfolding v' by (simp add: band_dimension_def shaped_def volume_def)
  next
    case False
    with f have v': "v' = v" by simp
    from False l have fl: "filter (\<lambda>(d, m). d \<noteq> ''wavelength'') (v_dims v) = [(b, n)]"
      by (simp add: band_layout_def)
    have "filter (\<lambda>d. d \<noteq> ''wavelength'') (map fst (v_dims v))
            = map fst (filter (\<lambda>(d, m). d \<noteq> ''wavelength'') (v_dims v))"
      by (rule filter_map_fst)
    with fl have "filter (\<lambda>d. d \<noteq> ''wavelength'') (map fst (v_dims v)) = [b]" by simp
    moreover have "(b, n) \<in> set (filter (\<lambda>(d, m). d \<noteq> ''wavelength'') (v_dims v))"
      using fl by simp
    then have "b \<noteq> ''wavelength''" by auto
    ultimately show ?thesis
      using sh p fl unfolding v' by (simp add: band_dimension_def volume_def)
  qed
  then show "band_dimension pick v' = Inr b" and "b \<noteq> ''wavelength''"
    and "collapse v' ''wavelength'' = Inr rs \<Longrightarrow> length rs = n"
    by (auto dest: collapse_count)
qed

text \<open>
  C10. Whatever \<^verbatim>\<open>merge_spectra\<close> returns has no dimension of length 1. With a band
  coordinate that asks for one band (flat along wavelength, or with a band dimension of
  size 1) the result has no band dimension, provided the data has no dimension of that
  name and Q is not binned along it; with \<open>n \<ge> 2\<close> bands along \<open>b\<close> the result has the
  dimension \<open>b\<close> with length \<open>n\<close>.
\<close>

theorem merge_spectra_band_dimension:
  assumes m: "merge_spectra pick hs data qb bands fd = Inr r"
  shows "list_all (\<lambda>(d, n). n \<noteq> 1) (da_sizes r)
       \<and> (\<forall>v b n. bands = Some v \<and> band_layout v b n \<and> shaped v \<and> pick [b] = b \<longrightarrow>
            (n = 1 \<and> b \<notin> dims_of (da_sizes data) \<and> (\<forall>spec. to_q_bins qb = Inr spec \<longrightarrow> fst spec \<noteq> b)
               \<longrightarrow> b \<notin> dims_of (da_sizes r))
            \<and> (2 \<le> n \<longrightarrow> (b, n) \<in> set (da_sizes r)))"
proof (intro conjI allI impI)
  from merge_spectra_squeezed [OF m] show "list_all (\<lambda>(d, n). n \<noteq> 1) (da_sizes r)"
    by (auto simp: list_all_iff)
next
  fix v b n
  assume h: "bands = Some v \<and> band_layout v b n \<and> shaped v \<and> pick [b] = b"
  assume one: "n = 1 \<and> b \<notin> dims_of (da_sizes data)
                 \<and> (\<forall>spec. to_q_bins qb = Inr spec \<longrightarrow> fst spec \<noteq> b)"
  show "b \<notin> dims_of (da_sizes r)"
  proof (cases "is_binned data")
    case True
    from merge_spectra_events_steps [OF m [unfolded h [THEN conjunct1]] True]
    obtain v' b' ranges q_all spec q out where
      s: "(if length (v_dims v) = 1 then fold_band v else Inr v) = Inr v'"
         "band_dimension pick v' = Inr b'" "collapse v' ''wavelength'' = Inr ranges"
         "bins_concat data (dims_of (da_sizes data)
             - set (case fd of None \<Rightarrow> [''Q''] | Some f \<Rightarrow> f)) = Inr q_all"
         "to_q_bins qb = Inr spec" "bin_by q_all spec = Inr q"
         "events_bands b' q None ranges = Inr (Some out)" "r = squeeze out"
      by blast
    note bf = band_layout_facts [where pick = pick and b = b, OF h [THEN conjunct2, THEN conjunct1]
        h [THEN conjunct2, THEN conjunct2, THEN conjunct1]
        h [THEN conjunct2, THEN conjunct2, THEN conjunct2] s(1)]
    from bf(1) s(2) have b': "b' = b" by simp
    from bf(2) [OF s(3)] one obtain wr where "ranges = [wr]"
      by (cases ranges) auto
    with s(7) have "events_bands b' q None [wr] = Inr (Some out)" by simp
    from events_bands_single [OF this]
    obtain bn where bn: "bin_events q ''wavelength'' wr False = Inr bn"
      and out: "out = squeeze bn"
      by blast
    from bins_concat_sizes [OF s(4)] one have "b \<notin> dims_of (da_sizes q_all)"
      by (auto simp: dims_of_def)
    moreover from bin_by_sizes [OF s(6)] obtain k where "da_sizes q = da_sizes q_all @ [(fst spec, k)]"
      by blast
    moreover have "fst spec \<noteq> b" using one s(5) by blast
    ultimately have "b \<notin> dims_of (da_sizes q)" by (auto simp: dims_of_def)
    with bin_events_sizes [OF bn] bf(3) have "b \<notin> dims_of (da_sizes bn)"
      by (auto simp: dims_of_def)
    then show ?thesis unfolding s(8) out by (auto simp: dims_of_def)
  next
    case False
    from merge_spectra_dense_steps [OF m [unfolded h [THEN conjunct1]] False]
    obtain v' b' ranges spec bs out where
      s: "(if length (v_dims v) = 1 then fold_band v else Inr v) = Inr v'"
         "band_dimension pick v' = Inr b'" "collapse v' ''wavelength'' = Inr ranges"
         "concat_list b' bs = Inr out" "r = squeeze out"
         "dense_bands hs data spec
            (dims_of (da_sizes data) - set (case fd of None \<Rightarrow> [''Q''] | Some f \<Rightarrow> f))
            ranges = Inr bs"
      by blast
    note bf = band_layout_facts [where pick = pick and b = b, OF h [THEN conjunct2, THEN conjunct1]
        h [THEN conjunct2, THEN conjunct2, THEN conjunct1]
        h [THEN conjunct2, THEN conjunct2, THEN conjunct2] s(1)]
    from bf(1) s(2) have b': "b' = b" by simp
    have "length bs = 1"
      using dense_bands_length [OF s(6)] bf(2) [OF s(3)] one by simp
    with concat_list_sizes [OF s(4)] b' obtain s' where
      "da_sizes out = (b, 1) # s'" "b \<notin> dims_of s'"
      by auto
    then show ?thesis unfolding s(5) by (auto simp: dims_of_def)
  qed
next
  fix v b n
  assume h: "bands = Some v \<and> band_layout v b n \<and> shaped v \<and> pick [b] = b"
  assume n: "2 \<le> n"
  show "(b, n) \<in> set (da_sizes r)"
  proof (cases "is_binned data")
    case True
    from merge_spectra_events_steps [OF m [unfolded h [THEN conjunct1]] True]
    obtain v' b' ranges q out where
      s: "(if length (v_dims v) = 1 then fold_band v else Inr v) = Inr v'"
         "band_dimension pick v' = Inr b'" "collapse v' ''wavelength'' = Inr ranges"
         "events_bands b' q None ranges = Inr (Some out)" "r = squeeze out"
      by blast
    note bf = band_layout_facts [where pick = pick and b = b, OF h [THEN conjunct2, THEN conjunct1]
        h [THEN conjunct2, THEN conjunct2, THEN conjunct1]
        h [THEN conjunct2, THEN conjunct2, THEN conjunct2] s(1)]
    from bf(1) s(2) have b': "b' = b" by simp
    have "\<exists>s. da_sizes out = (b, length ranges) # s"
      using s(4) n bf(2) [OF s(3)] bf(3) unfolding b'
      by (intro events_bands_sizes_none) auto
    then show ?thesis
      using n bf(2) [OF s(3)] unfolding s(5) by auto
  next
    case False
    from merge_spectra_dense_steps [OF m [unfolded h [THEN conjunct1]] False]
    obtain v' b' ranges spec bs out where
      s: "(if length (v_dims v) = 1 then fold_band v else Inr v) = Inr v'"
         "band_dimension pick v' = Inr b'" "collapse v' ''wavelength'' = Inr ranges"
         "concat_list b' bs = Inr out" "r = squeeze out"
         "dense_bands hs data spec
            (dims_of (da_sizes data) - set (case fd of None \<Rightarrow> [''Q''] | Some f \<Rightarrow> f))
            ranges = Inr bs"
      by blast
    note bf = band_layout_facts [where pick = pick and b = b, OF h [THEN conjunct2, THEN conjunct1]
        h [THEN conjunct2, THEN conjunct2, THEN conjunct1]
        h [THEN conjunct2, THEN conjunct2, THEN conjunct2] s(1)]
    from bf(1) s(2) have b': "b' = b" by simp
    have "length bs = n"
      using dense_bands_length [OF s(6)] bf(2) [OF s(3)] by simp
    with concat_list_sizes [OF s(4)] b' obtain s' where "da_sizes out = (b, n) # s'"
      by auto
    then show ?thesis using n unfolding s(5) by auto
  qed
qed


theorem merge_spectra_band_dimension_witness:
  "(\<exists>r. merge_spectra hd hist_sum_flat pixel_events (Edges q_edges)
            (Some (flat_band [2, 16])) None = Inr r
        \<and> list_all (\<lambda>(d, n). n \<noteq> 1) (da_sizes r) \<and> ''band'' \<notin> dims_of (da_sizes r))
   \<and> (\<exists>r. merge_spectra hd hist_sum_flat pixel_events (Edges q_edges)
            (Some (bands_2d 2 [2, 6, 6, 16])) None = Inr r
        \<and> (''band'', 2) \<in> set (da_sizes r))
   \<and> (\<exists>r. merge_spectra hd hist_sum_flat masked_pixel_events (Edges q_edges)
            (Some (bands_2d 2 [2, 6, 6, 16])) None = Inr r
        \<and> list_all (\<lambda>(d, n). n \<noteq> 1) (da_sizes r) \<and> (''band'', 2) \<in> set (da_sizes r))"
proof -
  let ?one = "merged_q\<lparr>da_coords := da_coords merged_q @ [(''wavelength'', flat_band [2, 16])]\<rparr>"
  have m1: "merge_spectra hd hist_sum_flat pixel_events (Edges q_edges)
              (Some (flat_band [2, 16])) None = Inr ?one"
    by code_simp
  have m2: "merge_spectra hd hist_sum_flat pixel_events (Edges q_edges)
              (Some (bands_2d 2 [2, 6, 6, 16])) None = Inr merged_two_bands"
    by code_simp
  have h1: "Some (flat_band [2, 16]) = Some (flat_band [2, 16])
              \<and> band_layout (flat_band [2, 16]) ''band'' 1 \<and> shaped (flat_band [2, 16])
              \<and> hd [''band''] = ''band''"
    by (simp add: band_layout_def flat_band_def shaped_def volume_def)
  have o1: "(1::nat) = 1 \<and> ''band'' \<notin> dims_of (da_sizes pixel_events)
              \<and> (\<forall>spec. to_q_bins (Edges q_edges) = Inr spec \<longrightarrow> fst spec \<noteq> ''band'')"
    by (auto simp: dims_of_def pixel_events_def to_q_bins_def the_dim_def q_edges_def)
  have h2: "Some (bands_2d 2 [2, 6, 6, 16]) = Some (bands_2d 2 [2, 6, 6, 16])
              \<and> band_layout (bands_2d 2 [2, 6, 6, 16]) ''band'' 2
              \<and> shaped (bands_2d 2 [2, 6, 6, 16]) \<and> hd [''band''] = ''band''"
    by (simp add: band_layout_def bands_2d_def shaped_def volume_def)
  have m3: "merge_spectra hd hist_sum_flat masked_pixel_events (Edges q_edges)
              (Some (bands_2d 2 [2, 6, 6, 16])) None = Inr merged_unmasked"
    by code_simp
  note a = merge_spectra_band_dimension [OF m1]
  note b = merge_spectra_band_dimension [OF m2]
  note c = merge_spectra_band_dimension [OF m3]
  from a [THEN conjunct1] a [THEN conjunct2, rule_format, OF h1, THEN conjunct1, rule_format, OF o1]
  have "list_all (\<lambda>(d, n). n \<noteq> 1) (da_sizes ?one) \<and> ''band'' \<notin> dims_of (da_sizes ?one)"
    by blast
  moreover from b [THEN conjunct2, rule_format, OF h2, THEN conjunct2]
  have "(''band'', 2) \<in> set (da_sizes merged_two_bands)" by simp
  moreover from c [THEN conjunct1] c [THEN conjunct2, rule_format, OF h2, THEN conjunct2]
  have "list_all (\<lambda>(d, n). n \<noteq> 1) (da_sizes merged_unmasked)
        \<and> (''band'', 2) \<in> set (da_sizes merged_unmasked)" by simp
  ultimately show ?thesis using m1 m2 m3 by blast
qed

lemma band_dimension_cases:
  "band_dimension pick v =
     (if filter (\<lambda>d. d \<noteq> ''wavelength'') (map fst (v_dims v)) = [] then Inl KeyError
      else Inr (pick (filter (\<lambda>d. d \<noteq> ''wavelength'') (map fst (v_dims v)))))"
  by (simp add: band_dimension_def split: list.splits)

lemma merge_spectra_no_band_dimension:
  assumes "filter (\<lambda>d. d \<noteq> ''wavelength'') (map fst (v_dims v)) = []"
    and "length (v_dims v) \<noteq> 1"
  shows "\<exists>e. merge_spectra pick hs data qb (Some v) fd = Inl e"
proof (cases "merge_spectra pick hs data qb (Some v) fd")
  case (Inl e)
  then show ?thesis by blast
next
  case (Inr r)
  have "\<exists>v' b. (if length (v_dims v) = 1 then fold_band v else Inr v) = Inr v'
           \<and> band_dimension pick v' = Inr b"
    using merge_spectra_events_steps [OF Inr] merge_spectra_dense_steps [OF Inr]
    by (cases "is_binned data") blast+
  with assms show ?thesis by (auto simp: band_dimension_cases)
qed


lemma merge_spectra_band_length:
  assumes m: "merge_spectra pick hs data qb (Some v) fd = Inr r"
    and nf: "length (v_dims v) \<noteq> 1" and sh: "shaped v"
    and n: "2 \<le> range_count v" and p: "pick (other_dims v) \<noteq> ''wavelength''"
  shows "(pick (other_dims v), range_count v) \<in> set (da_sizes r)"
proof (cases "is_binned data")
  case True
  from merge_spectra_events_steps [OF m True] nf
  obtain b ranges q out where
    s: "band_dimension pick v = Inr b" "collapse v ''wavelength'' = Inr ranges"
       "events_bands b q None ranges = Inr (Some out)" "r = squeeze out"
    by auto
  have b: "b = pick (other_dims v)"
    using s(1) by (auto simp: band_dimension_cases other_dims_def split: if_splits)
  have c: "length ranges = range_count v"
    using collapse_count [OF s(2) sh] by (simp add: range_count_def)
  have "\<exists>s. da_sizes out = (b, length ranges) # s"
    using s(3) n p unfolding b c [symmetric] by (intro events_bands_sizes_none) auto
  then show ?thesis using n unfolding s(4) b c [symmetric] by auto
next
  case False
  from merge_spectra_dense_steps [OF m False] nf
  obtain b ranges spec bs out where
    s: "band_dimension pick v = Inr b" "collapse v ''wavelength'' = Inr ranges"
       "concat_list b bs = Inr out" "r = squeeze out"
       "dense_bands hs data spec
          (dims_of (da_sizes data) - set (case fd of None \<Rightarrow> [''Q''] | Some f \<Rightarrow> f))
          ranges = Inr bs"
    by auto
  have b: "b = pick (other_dims v)"
    using s(1) by (auto simp: band_dimension_cases other_dims_def split: if_splits)
  have "length bs = range_count v"
    using dense_bands_length [OF s(5)] collapse_count [OF s(2) sh] by (simp add: range_count_def)
  with concat_list_sizes [OF s(3)] obtain s' where "da_sizes out = (b, range_count v) # s'"
    by auto
  then show ?thesis using n unfolding s(4) b by auto
qed

text \<open>
  C6 as stated does not hold: a band coordinate with two dimensions besides wavelength
  is merged without any failure.
\<close>

theorem band_ambiguity_counterexample:
  "merge_spectra hd hist_sum_flat pixel_events (Edges q_edges) (Some bands_3d) None
     = Inr merged_along_a"
  by code_simp


text \<open>
  C6, amended. The band dimension is one of the dimensions of the band coordinate
  besides wavelength. If there is none (and the coordinate is not a flat one that gets
  folded), the merge fails. If there are two or more, the inference does not fail: it
  yields the one the set gives up, and a merge that returns has laid the wavelength
  ranges of the coordinate, when they are two or more, out along that dimension (the
  dimension of a single range is squeezed away).
\<close>

theorem band_dimension_inference:
  "(other_dims v = [] \<and> length (v_dims v) \<noteq> 1 \<longrightarrow>
      (\<exists>e. merge_spectra pick hs data qb (Some v) fd = Inl e))
   \<and> (2 \<le> length (other_dims v) \<longrightarrow>
        band_dimension pick v = Inr (pick (other_dims v))
        \<and> (\<forall>r. merge_spectra pick hs data qb (Some v) fd = Inr r \<and> shaped v
                 \<and> pick (other_dims v) \<in> set (other_dims v) \<and> 2 \<le> range_count v
              \<longrightarrow> (pick (other_dims v), range_count v) \<in> set (da_sizes r)))"
proof (intro conjI impI allI)
  assume "other_dims v = [] \<and> length (v_dims v) \<noteq> 1"
  then show "\<exists>e. merge_spectra pick hs data qb (Some v) fd = Inl e"
    by (intro merge_spectra_no_band_dimension) (auto simp: other_dims_def)
next
  assume "2 \<le> length (other_dims v)"
  then have "other_dims v \<noteq> []" by auto
  then show "band_dimension pick v = Inr (pick (other_dims v))"
    by (simp add: band_dimension_cases other_dims_def)
next
  fix r
  assume two: "2 \<le> length (other_dims v)"
    and h: "merge_spectra pick hs data qb (Some v) fd = Inr r \<and> shaped v
              \<and> pick (other_dims v) \<in> set (other_dims v) \<and> 2 \<le> range_count v"
  have "length (v_dims v) \<noteq> 1"
  proof
    assume "length (v_dims v) = 1"
    then have "length (other_dims v) \<le> 1"
      using length_filter_le [of "\<lambda>d. d \<noteq> ''wavelength''" "map fst (v_dims v)"]
      by (simp add: other_dims_def)
    with two show False by simp
  qed
  moreover have "pick (other_dims v) \<noteq> ''wavelength''"
    using h by (auto simp: other_dims_def)
  ultimately show "(pick (other_dims v), range_count v) \<in> set (da_sizes r)"
    using h by (intro merge_spectra_band_length) auto
qed

theorem band_dimension_inference_witness:
  "(\<exists>e. merge_spectra hd hist_sum_flat pixel_events (Edges q_edges) (Some bands_0d) None = Inl e)
   \<and> band_dimension hd bands_3d = Inr ''a''
   \<and> (\<exists>r. merge_spectra hd hist_sum_flat pixel_events (Edges q_edges) (Some bands_3d) None
            = Inr r \<and> (''a'', 2) \<in> set (da_sizes r))"
proof -
  note t = band_dimension_inference
    [of _ hd hist_sum_flat pixel_events "Edges q_edges" None]
  have o0: "other_dims bands_0d = [] \<and> length (v_dims bands_0d) \<noteq> 1"
    by (simp add: other_dims_def bands_0d_def)
  have o3: "other_dims bands_3d = [''a'', ''b'']"
    by (simp add: other_dims_def bands_3d_def)
  have c3: "range_count bands_3d = 2"
    by (simp add: range_count_def bands_3d_def volume_def)
  have two: "2 \<le> length (other_dims bands_3d)" by (simp add: o3)
  have m: "merge_spectra hd hist_sum_flat pixel_events (Edges q_edges) (Some bands_3d) None
             = Inr merged_along_a"
    by code_simp
  have h: "merge_spectra hd hist_sum_flat pixel_events (Edges q_edges) (Some bands_3d) None
             = Inr merged_along_a \<and> shaped bands_3d
           \<and> hd (other_dims bands_3d) \<in> set (other_dims bands_3d) \<and> 2 \<le> range_count bands_3d"
    using m o3 c3 by (simp add: shaped_def bands_3d_def volume_def)
  from t [of bands_0d, THEN conjunct1, rule_format, OF o0]
  have 1: "\<exists>e. merge_spectra hd hist_sum_flat pixel_events (Edges q_edges) (Some bands_0d) None
                 = Inl e" .
  from t [of bands_3d, THEN conjunct2, rule_format, OF two, THEN conjunct1]
  have 2: "band_dimension hd bands_3d = Inr ''a''" by (simp add: o3)
  from t [of bands_3d, THEN conjunct2, rule_format, OF two, THEN conjunct2, rule_format, OF h]
  have 3: "(''a'', 2) \<in> set (da_sizes merged_along_a)" by (simp add: o3 c3)
  from 1 2 3 m show ?thesis by blast
qed




















section \<open>A single band over the whole wavelength range\<close>





end
